theory Spec2Isabelle
  imports Complex_Main "HOL-Library.Word" "HOL-Library.Log_Nat"
begin

section \<open>Python and numpy primitives used by \<open>pose_demo.py\<close>\<close>

text \<open>
  The program is one Python file, \<open>python/pose/pose_demo.py\<close>: the disc rasterizer
  \<open>_npcircle\<close> and the command \<open>predict_pose_from\<close>. Its values are Python integers
  (\<open>int\<close>), floats (\<open>real\<close> for a finite float that is only read, \<open>flt\<close> with
  rounding for float32 and float64 arithmetic), \<open>uint8\<close> pixels (\<open>8 word\<close>), strings
  (\<open>string\<close>) and numpy arrays.
  An exception is a value of \<open>error\<close>; a fallible step returns \<open>error + 'a\<close>.
\<close>

datatype error = IndexError | ValueError

definition ebind :: "error + 'a \<Rightarrow> ('a \<Rightarrow> error + 'b) \<Rightarrow> error + 'b" where
  "ebind m f = (case m of Inl e \<Rightarrow> Inl e | Inr x \<Rightarrow> f x)"

text \<open>\<open>int(x)\<close> on a finite float truncates towards zero.\<close>

definition py_int :: "real \<Rightarrow> int" where
  "py_int q = (if q < 0 then \<lceil>q\<rceil> else \<lfloor>q\<rfloor>)"

subsection \<open>Floating-point arithmetic\<close>

text \<open>
  A floating-point value is a finite real number or non-finite (an infinity or a NaN; the
  sign of a zero is not kept). A binary format has \<open>p\<close> bits of precision and exponents
  from \<open>emin\<close> to \<open>emax\<close>: float32 is 24, -126, 127 and float64 is 53, -1022, 1023.
  \<open>round_to\<close> is IEEE 754 rounding to nearest, ties to even, of a real number: the
  spacing \<open>ulp\<close> of the format at \<open>x\<close> is \<open>2 ^ (e - p + 1)\<close> for the exponent \<open>e\<close> of
  \<open>x\<close>, held at \<open>emin\<close> for subnormal numbers, and a result of magnitude
  \<open>2 ^ (emax + 1)\<close> or more overflows to an infinity.
\<close>

datatype flt = Finite real | NonFinite

instantiation flt :: zero
begin

definition zero_flt :: flt where
  "zero_flt = Finite 0"

instance ..

end

definition pow2 :: "int \<Rightarrow> real" where
  "pow2 e = (if 0 \<le> e then 2 ^ nat e else 1 / 2 ^ nat (- e))"

text \<open>For \<open>x > 0\<close>, the \<open>e\<close> with \<open>2 ^ e \<le> x < 2 ^ (e + 1)\<close>.\<close>

definition exponent :: "real \<Rightarrow> int" where
  "exponent x = (if 1 \<le> x then bitlen \<lfloor>x\<rfloor> - 1 else - bitlen (\<lceil>1 / x\<rceil> - 1))"

definition round_even :: "real \<Rightarrow> int" where
  "round_even y =
     (let f = \<lfloor>y\<rfloor>; d = y - of_int f
      in if d < 1 / 2 then f else if 1 / 2 < d then f + 1 else if even f then f else f + 1)"

definition round_to :: "nat \<Rightarrow> int \<Rightarrow> int \<Rightarrow> real \<Rightarrow> flt" where
  "round_to p emin emax x =
     (if x = 0 then Finite 0
      else let e = max (exponent \<bar>x\<bar>) emin;
               ulp = pow2 (e - int p + 1);
               y = of_int (round_even (x / ulp)) * ulp
           in if pow2 (emax + 1) \<le> \<bar>y\<bar> then NonFinite else Finite y)"

definition float32 :: "real \<Rightarrow> flt" where
  "float32 = round_to 24 (- 126) 127"

definition float64 :: "real \<Rightarrow> flt" where
  "float64 = round_to 53 (- 1022) 1023"

text \<open>
  float32 addition and multiplication: the exact result, rounded. With a non-finite
  operand the result is non-finite (an infinity or a NaN).
\<close>

fun f32_add :: "flt \<Rightarrow> flt \<Rightarrow> flt" where
  "f32_add (Finite a) (Finite b) = float32 (a + b)"
| "f32_add a b = NonFinite"

fun f32_mul :: "flt \<Rightarrow> flt \<Rightarrow> flt" where
  "f32_mul (Finite a) (Finite b) = float32 (a * b)"
| "f32_mul a b = NonFinite"

text \<open>
  float32 division by a finite float32 divisor \<open>d\<close>: the exact quotient, rounded; a
  division by zero gives an infinity or a NaN.
\<close>

fun f32_div :: "flt \<Rightarrow> real \<Rightarrow> flt" where
  "f32_div (Finite a) d = (if d = 0 then NonFinite else float32 (a / d))"
| "f32_div NonFinite d = NonFinite"

text \<open>The conversion of a float64 value to float32.\<close>

fun to_float32 :: "flt \<Rightarrow> flt" where
  "to_float32 (Finite a) = float32 a"
| "to_float32 NonFinite = NonFinite"

subsection \<open>Slices\<close>

text \<open>
  A slice bound \<open>i\<close> on an axis of length \<open>n\<close> (step 1), as \<open>slice.indices\<close> resolves
  it: a negative bound counts from the end, and every bound is clipped to \<open>0..n\<close>.
  The slice \<open>a[s:e]\<close> then holds the indices from \<open>slice_index n s\<close> up to, not
  including, \<open>slice_index n e\<close> (none when the second is not larger).
\<close>

definition slice_index :: "nat \<Rightarrow> int \<Rightarrow> nat" where
  "slice_index n i = (if i < 0 then nat (max (i + int n) 0) else min (nat i) n)"

subsection \<open>Arrays\<close>

text \<open>
  A numpy array of two or three dimensions is its shape and its elements as nested
  lists, outermost axis first. numpy arrays are rectangular: \<open>wf2\<close> and \<open>wf3\<close> say
  that the nested lists have the lengths the shape gives.
\<close>

record 'a ndarray2 =
  dim0 :: nat
  dim1 :: nat
  cells :: "'a list list"

record 'a ndarray3 =
  shape0 :: nat
  shape1 :: nat
  shape2 :: nat
  elems :: "'a list list list"

definition wf2 :: "'a ndarray2 \<Rightarrow> bool" where
  "wf2 a \<longleftrightarrow> length (cells a) = dim0 a \<and> (\<forall>r \<in> set (cells a). length r = dim1 a)"

definition wf3 :: "'a ndarray3 \<Rightarrow> bool" where
  "wf3 a \<longleftrightarrow> length (elems a) = shape0 a \<and>
     (\<forall>r \<in> set (elems a). length r = shape1 a \<and> (\<forall>p \<in> set r. length p = shape2 a))"

text \<open>\<open>numpy.zeros(shape=(h, w, c))\<close>.\<close>

definition zeros3 :: "nat \<Rightarrow> nat \<Rightarrow> nat \<Rightarrow> ('a::zero) ndarray3" where
  "zeros3 h w c =
     \<lparr>shape0 = h, shape1 = w, shape2 = c, elems = replicate h (replicate w (replicate c 0))\<rparr>"

text \<open>\<open>a[:, :, ::-1]\<close>: the last axis reversed.\<close>

definition flip_last :: "'a ndarray3 \<Rightarrow> 'a ndarray3" where
  "flip_last a = a\<lparr>elems := map (map rev) (elems a)\<rparr>"

text \<open>\<open>numpy.swapaxes(a, 0, 2)\<close>: the result at \<open>[k, j, i]\<close> is \<open>a[i, j, k]\<close>.\<close>

definition swapaxes02 :: "'a ndarray3 \<Rightarrow> 'a ndarray3" where
  "swapaxes02 a =
     \<lparr>shape0 = shape2 a, shape1 = shape1 a, shape2 = shape0 a,
      elems = map (\<lambda>k. map (\<lambda>j. map (\<lambda>i. elems a ! i ! j ! k) [0..<shape0 a])
                               [0..<shape1 a]) [0..<shape2 a]\<rparr>"

text \<open>\<open>numpy.dstack((g, g, g))\<close> of a two-dimensional array.\<close>

definition dstack3 :: "'a ndarray2 \<Rightarrow> 'a ndarray3" where
  "dstack3 g =
     \<lparr>shape0 = dim0 g, shape1 = dim1 g, shape2 = 3,
      elems = map (map (\<lambda>v. [v, v, v])) (cells g)\<rparr>"

text \<open>\<open>a[i, j]\<close> with non-negative indices: out of range raises.\<close>

definition index2 :: "'a ndarray2 \<Rightarrow> nat \<Rightarrow> nat \<Rightarrow> error + 'a" where
  "index2 a i j = (if i < dim0 a \<and> j < dim1 a then Inr (cells a ! i ! j) else Inl IndexError)"

section \<open>The disc rasterizer \<open>_npcircle\<close>\<close>

text \<open>
  \<^verbatim>\<open>y, x = _np.ogrid[-radius: radius, -radius: radius]\<close> and
  \<^verbatim>\<open>index = x**2 + y**2 <= radius**2\<close>: the grid has \<open>max (2 * radius) 0\<close> entries on
  each axis, entry \<open>i\<close> being \<open>- radius + i\<close>; the last offset is \<open>radius - 1\<close>.
  \<open>disc_mask radius i j\<close> is the mask at row \<open>i\<close> and column \<open>j\<close>.
\<close>

definition disc_mask :: "int \<Rightarrow> nat \<Rightarrow> nat \<Rightarrow> bool" where
  "disc_mask radius i j =
     (let y = - radius + int i; x = - radius + int j in x\<^sup>2 + y\<^sup>2 \<le> radius\<^sup>2)"

text \<open>
  \<open>_np.array(color)\<close> has shape \<open>(length color)\<close>; added to the selected pixels, of
  shape \<open>(K, shape2)\<close>, and assigned back to them, it must have \<open>shape2\<close> entries or
  one entry, which is then repeated. Anything else raises \<open>ValueError\<close>.
\<close>

definition broadcast_color :: "nat \<Rightarrow> int list \<Rightarrow> error + int list" where
  "broadcast_color c color =
     (if length color = c then Inr color
      else if length color = 1 then Inr (replicate c (hd color))
      else Inl ValueError)"

text \<open>
  \<open>.astype('uint8')\<close> of a float32 drops the fraction. The C conversion leaves a value
  outside \<open>0..255\<close> to the platform: here a finite one is taken modulo 256 and a
  non-finite one gives 0.
\<close>

definition to_uint8 :: "flt \<Rightarrow> 8 word" where
  "to_uint8 v = (case v of Finite q \<Rightarrow> word_of_int (py_int q) | NonFinite \<Rightarrow> 0)"

text \<open>
  One channel of
  \<^verbatim>\<open>(px.astype('float32') * transparency + np.array(color).astype('float32') * (1.0 - transparency)).astype('uint8')\<close>:
  \<open>transparency\<close> is a Python float, so \<open>1.0 - transparency\<close> is a float64
  subtraction; a Python float that meets a float32 array is converted to float32, and
  the products and the sum are float32 operations.
\<close>

definition blend :: "real \<Rightarrow> 8 word \<Rightarrow> int \<Rightarrow> 8 word" where
  "blend transparency existing c =
     to_uint8
       (f32_add
          (f32_mul (float32 (of_nat (unat existing))) (float32 transparency))
          (f32_mul (float32 (of_int c)) (to_float32 (float64 (1 - transparency)))))"

text \<open>
  \<^verbatim>\<open>image[cy-radius:cy+radius, cx-radius:cx+radius][index] = ...\<close>: the two slices
  select a window of rows \<open>r0..<r1\<close> and columns \<open>c0..<c1\<close>; indexing the window with
  the boolean mask raises \<open>IndexError\<close> unless its first two dimensions are those of
  the mask (numpy 1.13 and later; earlier versions raise as soon as a true entry of the
  mask lies outside the window). The right-hand side is evaluated first, so nothing is
  written when an exception is raised. Pixel \<open>(i, j)\<close> of the window is written where
  the mask is true.
\<close>

definition npcircle ::
  "8 word ndarray3 \<Rightarrow> real \<Rightarrow> real \<Rightarrow> real \<Rightarrow> int list \<Rightarrow> real \<Rightarrow> error + 8 word ndarray3" where
  "npcircle img cx' cy' radius' color transparency =
     (let radius = py_int radius'; cx = py_int cx'; cy = py_int cy';
          n = nat (2 * radius);
          r0 = slice_index (shape0 img) (cy - radius);
          r1 = slice_index (shape0 img) (cy + radius);
          c0 = slice_index (shape1 img) (cx - radius);
          c1 = slice_index (shape1 img) (cx + radius)
      in if r1 - r0 \<noteq> n \<or> c1 - c0 \<noteq> n then Inl IndexError
         else ebind (broadcast_color (shape2 img) color) (\<lambda>col.
           Inr (img\<lparr>elems :=
             map (\<lambda>(i, row).
               map (\<lambda>(j, p).
                 if r0 \<le> i \<and> i < r1 \<and> c0 \<le> j \<and> j < c1 \<and> disc_mask radius (i - r0) (j - c0)
                 then map2 (blend transparency) p col else p)
               (enumerate 0 row))
             (enumerate 0 (elems img))\<rparr>)))"


section \<open>The channel remapping of \<open>predict_pose_from\<close> (lines 146 to 162)\<close>

text \<open>\<open>a[:, :, k]\<close> with a non-negative \<open>k\<close>, read and assigned.\<close>

definition channel :: "'a ndarray3 \<Rightarrow> nat \<Rightarrow> error + 'a ndarray2" where
  "channel a k =
     (if k < shape2 a
      then Inr \<lparr>dim0 = shape0 a, dim1 = shape1 a, cells = map (map (\<lambda>p. p ! k)) (elems a)\<rparr>
      else Inl IndexError)"

text \<open>
  \<open>a[:, :, k] = v\<close>: at every use \<open>v\<close> has the first two dimensions of \<open>a\<close>, so no
  broadcasting takes place.
\<close>

definition set_channel :: "'a ndarray3 \<Rightarrow> nat \<Rightarrow> 'a ndarray2 \<Rightarrow> error + 'a ndarray3" where
  "set_channel a k v =
     (if k < shape2 a
      then Inr (a\<lparr>elems := map2 (map2 (\<lambda>p x. p[k := x])) (elems a) (cells v)\<rparr>)
      else Inl IndexError)"

text \<open>
  Modelled from the spec: the element type of the heatmaps, float32 (section 3,
  \<open>NativeHeatmapStack\<close>); \<open>estimate_pose\<close>, which returns them, is not part of the file.

  Elementwise arithmetic on two-dimensional float32 arrays of one shape: the sum of two
  arrays, and the product and the quotient of an array and a Python number. Every
  result is a float32 array again: numpy converts the number to float32. The divisors of
  this program are the literals \<^verbatim>\<open>2.\<close> and \<^verbatim>\<open>4.\<close>, which float32 holds exactly, so
  \<open>div2\<close> takes its divisor as the float32 value it is.
\<close>

definition add2 :: "flt ndarray2 \<Rightarrow> flt ndarray2 \<Rightarrow> flt ndarray2" where
  "add2 a b = a\<lparr>cells := map2 (map2 f32_add) (cells a) (cells b)\<rparr>"

definition scale2 :: "real \<Rightarrow> flt ndarray2 \<Rightarrow> flt ndarray2" where
  "scale2 c a = a\<lparr>cells := map (map (\<lambda>x. f32_mul (float32 c) x)) (cells a)\<rparr>"

definition div2 :: "flt ndarray2 \<Rightarrow> real \<Rightarrow> flt ndarray2" where
  "div2 a c = a\<lparr>cells := map (map (\<lambda>x. f32_div x c)) (cells a)\<rparr>"

text \<open>
  \<^verbatim>\<open>for j in js: um2[:,:,j] = unary_maps[:,:,j-off]\<close>, the two copying loops
  (\<open>off\<close> is 0 in the first and 2 in the second).
\<close>

fun copy_channels :: "'a ndarray3 \<Rightarrow> nat \<Rightarrow> nat list \<Rightarrow> 'a ndarray3 \<Rightarrow> error + 'a ndarray3" where
  "copy_channels unary_maps off [] um2 = Inr um2"
| "copy_channels unary_maps off (j # js) um2 =
     ebind (channel unary_maps (j - off)) (\<lambda>c.
     ebind (set_channel um2 j c) (\<lambda>um2'.
     copy_channels unary_maps off js um2'))"

text \<open>
  The specification calls this step \<open>remap\<close>. \<open>um2\<close> is a float32 array, so the
  assignments store the float32 values as they are. The two \<open>print\<close> calls between the
  assignments write to the standard output only.
\<close>

definition remap :: "flt ndarray3 \<Rightarrow> error + flt ndarray3" where
  "remap unary_maps =
     ebind (channel unary_maps 2) (\<lambda>u2.
     ebind (channel unary_maps 3) (\<lambda>u3.
     let pelvis = div2 (add2 u2 u3) 2 in
     ebind (channel unary_maps 12) (\<lambda>u12.
     ebind (channel unary_maps 13) (\<lambda>u13.
     let thorax = div2 (add2 (add2 (scale2 2 pelvis) u12) u13) 4;
         um2 = zeros3 (shape0 unary_maps) (shape1 unary_maps) 16 in
     ebind (copy_channels unary_maps 0 [0..<6] um2) (\<lambda>um2.
     ebind (set_channel um2 6 pelvis) (\<lambda>um2.
     ebind (set_channel um2 7 thorax) (\<lambda>um2.
     copy_channels unary_maps 2 [8..<16] um2)))))))"

section \<open>Paths\<close>

text \<open>
  \<open>s.rfind(c)\<close> for a single character: the highest index at which \<open>c\<close> occurs in
  \<open>s\<close>, and \<open>-1\<close> when it does not occur.
\<close>

definition rfind :: "string \<Rightarrow> char \<Rightarrow> int" where
  "rfind s c =
     (if c \<in> set s then int (length s) - 1 - int (length (takeWhile (\<lambda>x. x \<noteq> c) (rev s)))
      else - 1)"

text \<open>\<open>s.endswith(t)\<close>.\<close>

definition endswith :: "string \<Rightarrow> string \<Rightarrow> bool" where
  "endswith s t \<longleftrightarrow> length t \<le> length s \<and> drop (length s - length t) s = t"

text \<open>
  The functions of \<open>os.path\<close> on a POSIX system (\<open>posixpath\<close>, and
  \<open>genericpath._splitext\<close> with separator \<open>/\<close> and extension separator \<open>.\<close>).
\<close>

definition basename :: "string \<Rightarrow> string" where
  "basename p = drop (nat (rfind p CHR ''/'' + 1)) p"

definition dirname :: "string \<Rightarrow> string" where
  "dirname p =
     (let hd_part = take (nat (rfind p CHR ''/'' + 1)) p
      in if hd_part \<noteq> [] \<and> hd_part \<noteq> replicate (length hd_part) CHR ''/''
         then rev (dropWhile (\<lambda>c. c = CHR ''/'') (rev hd_part))
         else hd_part)"

definition join :: "string \<Rightarrow> string \<Rightarrow> string" where
  "join a b =
     (if b \<noteq> [] \<and> hd b = CHR ''/'' then b
      else if a = [] \<or> last a = CHR ''/'' then a @ b
      else a @ ''/'' @ b)"

text \<open>
  \<open>splitext\<close>: the extension starts at the last dot, provided that dot comes after the
  last separator and some character between the two is not a dot (the \<open>while\<close> loop
  that skips leading dots).
\<close>

definition splitext :: "string \<Rightarrow> string \<times> string" where
  "splitext p =
     (let sepIndex = rfind p CHR ''/''; dotIndex = rfind p CHR ''.''
      in if dotIndex > sepIndex \<and>
            list_ex (\<lambda>filenameIndex. p ! filenameIndex \<noteq> CHR ''.'')
              [nat (sepIndex + 1)..<nat dotIndex]
         then (take (nat dotIndex) p, drop (nat dotIndex) p)
         else (p, []))"

text \<open>
  \<open>numpy.savez_compressed(file, ...)\<close> writes to \<open>file\<close> when that name ends with
  \<open>.npz\<close> and appends \<open>.npz\<close> to the name otherwise.
\<close>

definition npz_file :: "string \<Rightarrow> string" where
  "npz_file file = (if endswith file ''.npz'' then file else file @ ''.npz'')"

section \<open>The command \<open>predict_pose_from\<close>\<close>

text \<open>
  What the command reads from outside is a parameter: the file system
  (\<open>os.path.isdir\<close>, \<open>os.path.exists\<close>, \<open>glob.glob\<close>), the image decoder
  \<open>scipy.misc.imread\<close>, which returns a two-dimensional array for a grayscale image and
  a three-dimensional one otherwise, and the estimator \<open>estimate_pose\<close>, which is not
  part of the file. What it writes is a list of actions, in order. The scales arrive
  parsed; the choice of the device has no part in the model.
\<close>

datatype raw_image = Gray "8 word ndarray2" | Colour "8 word ndarray3"

record world =
  isdir :: "string \<Rightarrow> bool"
  path_exists :: "string \<Rightarrow> bool"
  glob :: "string \<Rightarrow> string list"
  imread :: "string \<Rightarrow> raw_image"
  estimate_pose :: "8 word ndarray3 \<Rightarrow> real list \<Rightarrow> real ndarray2 \<times> flt ndarray3"

datatype action =
    Mkdir string
  | SavezCompressed string "real ndarray2"
  | OpenH5 string
  | StoreH5 string "flt ndarray3" "8 word ndarray3"
  | Imsave string "8 word ndarray3"

text \<open>Lines 124 to 128: a grayscale image is stacked three times, any other is reversed
  along its last axis (RGB to BGR).\<close>

definition prepare_image :: "raw_image \<Rightarrow> 8 word ndarray3" where
  "prepare_image raw = (case raw of Gray g \<Rightarrow> dstack3 g | Colour c \<Rightarrow> flip_last c)"

text \<open>
  Lines 166 and 176: \<open>image = _np.swapaxes(image, 0, 2)\<close> rebinds \<open>image\<close> before the
  bundle is stored, and \<open>visim = image[:, :, ::-1].copy()\<close> reads the rebound variable.
\<close>

definition visualization_image :: "8 word ndarray3 \<Rightarrow> 8 word ndarray3" where
  "visualization_image img = (let img = swapaxes02 img in flip_last img)"

definition colors :: "int list list" where
  "colors = [[255, 0, 0], [0, 255, 0], [0, 0, 255], [0, 245, 255], [255, 131, 250], [255, 255, 0],
             [255, 0, 0], [0, 255, 0], [0, 0, 255], [0, 245, 255], [255, 131, 250], [255, 255, 0],
             [0, 0, 0], [255, 255, 255]]"

text \<open>Lines 180 to 186: one disc for each of the joints \<open>p_idx\<close>, drawn into \<open>visim\<close>.\<close>

fun draw_joints :: "real ndarray2 \<Rightarrow> nat list \<Rightarrow> 8 word ndarray3 \<Rightarrow> error + 8 word ndarray3" where
  "draw_joints pose [] visim = Inr visim"
| "draw_joints pose (p_idx # rest) visim =
     ebind (index2 pose 0 p_idx) (\<lambda>x.
     ebind (index2 pose 1 p_idx) (\<lambda>y.
     ebind (npcircle visim x y 8 (colors ! p_idx) 0) (\<lambda>visim'.
     draw_joints pose rest visim')))"

text \<open>
  The body of the loop over the images (lines 113 to 188). In a single-file run with a
  supplied \<open>out_name\<close> no branch assigns the variable, so it still holds the supplied
  value. The result is the actions carried out and the exception that ended the body,
  if one did.
\<close>

definition loop_body ::
  "world \<Rightarrow> real list \<Rightarrow> bool \<Rightarrow> bool \<Rightarrow> string option \<Rightarrow> string \<Rightarrow> action list \<times> error option" where
  "loop_body w scales visualize process_folder out_name_provided image_name =
     (let folder = dirname image_name;
          out_name = (case out_name_provided of
                        None \<Rightarrow> image_name @ ''_pose.npz''
                      | Some given \<Rightarrow>
                          if process_folder
                          then join given (basename image_name @ ''_pose.npz'')
                          else given);
          img = prepare_image (imread w image_name);
          (pose, unary_maps) = estimate_pose w img scales;
          fname = join folder (fst (splitext image_name) @ ''.h5'');
          saved = [SavezCompressed out_name pose, OpenH5 fname]
      in case remap unary_maps of
           Inl e \<Rightarrow> (saved, Some e)
         | Inr um2 \<Rightarrow>
             (let um2 = swapaxes02 um2;
                  stored = saved @ [StoreH5 fname um2 (swapaxes02 img)]
              in if visualize
                 then (case draw_joints pose [0..<14] (visualization_image img) of
                         Inl e \<Rightarrow> (stored, Some e)
                       | Inr visim \<Rightarrow> (stored @ [Imsave (out_name @ ''_vis.png'') visim], None))
                 else (stored, None)))"

text \<open>The loop: an exception in one image ends the run.\<close>

fun process_images ::
  "(string \<Rightarrow> action list \<times> error option) \<Rightarrow> string list \<Rightarrow> action list \<times> error option" where
  "process_images body [] = ([], None)"
| "process_images body (image_name # rest) =
     (case body image_name of
        (acts, Some e) \<Rightarrow> (acts, Some e)
      | (acts, None) \<Rightarrow> (case process_images body rest of (acts', r) \<Rightarrow> (acts @ acts', r)))"

definition input_images :: "world \<Rightarrow> string \<Rightarrow> string \<Rightarrow> string list" where
  "input_images w image_name folder_image_suffix =
     (if isdir w image_name then glob w (join image_name (''*'' @ folder_image_suffix))
      else [image_name])"

definition predict_pose_from ::
  "world \<Rightarrow> string \<Rightarrow> string option \<Rightarrow> real list \<Rightarrow> bool \<Rightarrow> string \<Rightarrow> action list \<times> error option" where
  "predict_pose_from w image_name out_name scales visualize folder_image_suffix =
     (let process_folder = isdir w image_name;
          images = input_images w image_name folder_image_suffix;
          made = (case out_name of
                    None \<Rightarrow> []
                  | Some given \<Rightarrow>
                      if process_folder \<and> \<not> path_exists w given then [Mkdir given] else [])
      in case process_images (loop_body w scales visualize process_folder out_name) images of
           (acts, r) \<Rightarrow> (made @ acts, r))"

section \<open>Notions of the specification\<close>

text \<open>The pixel of an array at row \<open>i\<close> and column \<open>j\<close>: all its channels.\<close>

definition pixel :: "'a ndarray3 \<Rightarrow> nat \<Rightarrow> nat \<Rightarrow> 'a list" where
  "pixel a i j = elems a ! i ! j"

text \<open>
  The pixel at row \<open>i\<close> and column \<open>j\<close> is one that a disc of radius \<open>r\<close> around
  \<open>(cx, cy)\<close> writes when the disc lies inside the image: \<open>npcircle_inside\<close> below.
\<close>

definition disc_hit :: "int \<Rightarrow> int \<Rightarrow> int \<Rightarrow> nat \<Rightarrow> nat \<Rightarrow> bool" where
  "disc_hit cx cy r i j =
     (let dx = int j - cx; dy = int i - cy
      in - r \<le> dx \<and> dx < r \<and> - r \<le> dy \<and> dy < r \<and> dx\<^sup>2 + dy\<^sup>2 \<le> r\<^sup>2)"

text \<open>Truncation towards zero: the sign and the whole part of the magnitude.\<close>

definition truncate_towards_zero :: "real \<Rightarrow> real" where
  "truncate_towards_zero q = sgn q * of_int \<lfloor>\<bar>q\<bar>\<rfloor>"

text \<open>The files that the \<open>savez_compressed\<close> calls of a run write, and the names the
  calls were given.\<close>

fun keypoint_archives :: "action list \<Rightarrow> string list" where
  "keypoint_archives [] = []"
| "keypoint_archives (SavezCompressed file pose # acts) = npz_file file # keypoint_archives acts"
| "keypoint_archives (a # acts) = keypoint_archives acts"

fun savez_names :: "action list \<Rightarrow> string list" where
  "savez_names [] = []"
| "savez_names (SavezCompressed file pose # acts) = file # savez_names acts"
| "savez_names (a # acts) = savez_names acts"

text \<open>The heatmap bundles that a run opens.\<close>

fun heatmap_bundles :: "action list \<Rightarrow> string list" where
  "heatmap_bundles [] = []"
| "heatmap_bundles (OpenH5 file # acts) = file # heatmap_bundles acts"
| "heatmap_bundles (a # acts) = heatmap_bundles acts"

text \<open>The stem of a path: its last component without the extension.\<close>

definition stem :: "string \<Rightarrow> string" where
  "stem p = fst (splitext (basename p))"

text \<open>
  What lines 146 to 162 leave in \<open>um2\<close> for one pixel \<open>p\<close> of \<open>unary_maps\<close>, written
  out: \<open>remap_elems\<close> below derives it from \<open>remap\<close>.
\<close>

definition pelvis_of :: "flt list \<Rightarrow> flt" where
  "pelvis_of p = f32_div (f32_add (p ! 2) (p ! 3)) 2"

definition thorax_of :: "flt list \<Rightarrow> flt" where
  "thorax_of p =
     f32_div (f32_add (f32_add (f32_mul (float32 2) (pelvis_of p)) (p ! 12)) (p ! 13)) 4"

definition remap_pixel :: "flt list \<Rightarrow> flt list" where
  "remap_pixel p =
     [p ! 0, p ! 1, p ! 2, p ! 3, p ! 4, p ! 5, pelvis_of p, thorax_of p,
      p ! 6, p ! 7, p ! 8, p ! 9, p ! 10, p ! 11, p ! 12, p ! 13]"

section \<open>Concrete inputs\<close>

text \<open>
  A world for concrete runs: \<open>imgs\<close> is a folder with two images, every other path a
  file; every image decodes to one of two rows and one column, and the estimator returns
  a pose of 14 joints and a stack of 14 channels.
\<close>

definition demo_image :: "8 word ndarray3" where
  "demo_image = \<lparr>shape0 = 2, shape1 = 1, shape2 = 3, elems = [[[1, 2, 3]], [[4, 5, 6]]]\<rparr>"

definition demo_pose :: "real ndarray2" where
  "demo_pose = \<lparr>dim0 = 2, dim1 = 14, cells = [replicate 14 1, replicate 14 1]\<rparr>"

definition demo_maps :: "flt ndarray3" where
  "demo_maps = \<lparr>shape0 = 2, shape1 = 1, shape2 = 14,
     elems = [[map Finite [0, 1, 2, 3, 4, 5, 6, 7, 8, 9, 10, 11, 12, 13]],
              [map Finite [0, 1, 2, 3, 4, 5, 6, 7, 8, 9, 10, 11, 12, 13]]]\<rparr>"

definition demo_world :: world where
  "demo_world =
     \<lparr>isdir = (\<lambda>p. p = ''imgs''),
      path_exists = (\<lambda>p. p = ''imgs'' \<or> p = ''imgs/a.png'' \<or> p = ''imgs/b.png'' \<or> p = ''img.png''
                          \<or> p = ''data/a.png''),
      glob = (\<lambda>pattern. if pattern = ''imgs/*.png'' then [''imgs/a.png'', ''imgs/b.png''] else []),
      imread = (\<lambda>p. Colour demo_image),
      estimate_pose = (\<lambda>img scales. (demo_pose, demo_maps))\<rparr>"

text \<open>Heatmap stacks of one pixel with 13, 14 and 15 channels, channel \<open>k\<close> holding \<open>k\<close>.\<close>

definition ramp13 :: "flt ndarray3" where
  "ramp13 = \<lparr>shape0 = 1, shape1 = 1, shape2 = 13,
     elems = [[map Finite [0, 1, 2, 3, 4, 5, 6, 7, 8, 9, 10, 11, 12]]]\<rparr>"

definition ramp14 :: "flt ndarray3" where
  "ramp14 = \<lparr>shape0 = 1, shape1 = 1, shape2 = 14,
     elems = [[map Finite [0, 1, 2, 3, 4, 5, 6, 7, 8, 9, 10, 11, 12, 13]]]\<rparr>"

definition ramp15 :: "flt ndarray3" where
  "ramp15 = \<lparr>shape0 = 1, shape1 = 1, shape2 = 15,
     elems = [[map Finite [0, 1, 2, 3, 4, 5, 6, 7, 8, 9, 10, 11, 12, 13, 14]]]\<rparr>"

text \<open>
  A stack of one pixel and 14 channels whose channels 2 and 3 hold the float32 values
  16777215 and 2, and all others 0.
\<close>

definition large14 :: "flt ndarray3" where
  "large14 = \<lparr>shape0 = 1, shape1 = 1, shape2 = 14,
     elems = [[map Finite [0, 0, 16777215, 2, 0, 0, 0, 0, 0, 0, 0, 0, 0, 0]]]\<rparr>"

text \<open>
  The same with \<open>2 ^ 127\<close>, a float32 value too (the largest is
  \<open>2 ^ 128 - 2 ^ 104\<close>), in channels 2 and 3.
\<close>

definition huge14 :: "flt ndarray3" where
  "huge14 = \<lparr>shape0 = 1, shape1 = 1, shape2 = 14,
     elems = [[map Finite [0, 0, 2 ^ 127, 2 ^ 127, 0, 0, 0, 0, 0, 0, 0, 0, 0, 0]]]\<rparr>"

text \<open>A black image of 100 rows and 100 columns, and one of 20 by 20.\<close>

definition black100 :: "8 word ndarray3" where
  "black100 = zeros3 100 100 3"

definition black20 :: "8 word ndarray3" where
  "black20 = zeros3 20 20 3"

section \<open>Integer conversion and slices\<close>

lemma py_int_truncates: "of_int (py_int q) = truncate_towards_zero q"
proof (cases "q < 0")
  case True
  then have "\<lceil>q\<rceil> = - \<lfloor>\<bar>q\<bar>\<rfloor>" by (simp add: ceiling_def)
  with True show ?thesis by (simp add: py_int_def truncate_towards_zero_def)
next
  case False
  then show ?thesis
    by (cases "q = 0") (simp_all add: py_int_def truncate_towards_zero_def)
qed

lemma py_int_of_int: "py_int (of_int n) = n"
  by (simp add: py_int_def)

lemma py_int_cong:
  "truncate_towards_zero a = truncate_towards_zero b \<Longrightarrow> py_int a = py_int b"
  by (metis py_int_truncates of_int_eq_iff)

text \<open>
  A window of \<open>2 * r\<close> indices around \<open>c\<close> that leaves the axis on either side, without
  lying wholly before index 0, is resolved to fewer than \<open>2 * r\<close> indices.
\<close>

lemma slice_window_outside:
  assumes "1 \<le> r" and "c - r < 0 \<or> int n < c + r" and "0 \<le> c + r"
  shows "slice_index n (c + r) - slice_index n (c - r) \<noteq> nat (2 * r)"
  using assms by (auto simp: slice_index_def split: if_splits)

section \<open>Floating-point rounding\<close>

lemma pow2_pos: "0 < pow2 e"
  by (simp add: pow2_def)

lemma pow2_powr: "pow2 e = 2 powr (real_of_int e)"
proof (cases "0 \<le> e")
  case True
  then have "real_of_int e = real (nat e)" by simp
  then show ?thesis using True by (simp add: pow2_def powr_realpow del: of_nat_nat)
next
  case False
  then have "real_of_int e = - real (nat (- e))" by simp
  then show ?thesis using False
    by (simp add: pow2_def powr_minus powr_realpow divide_inverse del: of_nat_nat)
qed

lemma pow2_add: "pow2 (a + b) = pow2 a * pow2 b"
  by (simp add: pow2_powr powr_add)

lemma pow2_mono: "a \<le> b \<Longrightarrow> pow2 a \<le> pow2 b"
  by (simp add: pow2_powr)

lemma exponent_le:
  assumes "0 < x"
  shows "pow2 (exponent x) \<le> x"
proof (cases "1 \<le> x")
  case True
  then have p: "0 < \<lfloor>x\<rfloor>" by linarith
  have "0 \<le> bitlen \<lfloor>x\<rfloor> - 1" using p by (simp add: bitlen_alt_def)
  then have "pow2 (exponent x) = 2 ^ nat (bitlen \<lfloor>x\<rfloor> - 1)"
    using True by (simp add: exponent_def pow2_def)
  also have "\<dots> = real_of_int (2 ^ nat (bitlen \<lfloor>x\<rfloor> - 1))" by simp
  also have "\<dots> \<le> real_of_int \<lfloor>x\<rfloor>"
    using bitlen_bounds [OF p] by (intro of_int_le_iff [THEN iffD2]) simp
  also have "\<dots> \<le> x" by simp
  finally show ?thesis .
next
  case False
  with assms have x: "0 < x" "x < 1" by simp_all
  define n where "n = \<lceil>1 / x\<rceil> - 1"
  have "1 < 1 / x" using x by simp
  then have n: "0 < n" unfolding n_def by linarith
  then have b: "0 < bitlen n" by (simp add: bitlen_alt_def)
  have "n < 2 ^ nat (bitlen n)" using bitlen_bounds [OF n] by simp
  then have c: "\<lceil>1 / x\<rceil> \<le> 2 ^ nat (bitlen n)" unfolding n_def by simp
  have "1 / x \<le> real_of_int \<lceil>1 / x\<rceil>" by (rule le_of_int_ceiling)
  also have "\<dots> \<le> real_of_int (2 ^ nat (bitlen n))"
    using c by (rule of_int_le_iff [THEN iffD2])
  also have "\<dots> = 2 ^ nat (bitlen n)" by simp
  finally have "1 / x \<le> 2 ^ nat (bitlen n)" .
  then have "1 / 2 ^ nat (bitlen n) \<le> x"
    using x by (simp add: field_simps)
  moreover have "pow2 (exponent x) = 1 / 2 ^ nat (bitlen n)"
    using False b by (simp add: exponent_def pow2_def n_def)
  ultimately show ?thesis by simp
qed

lemma round_even_error: "\<bar>real_of_int (round_even y) - y\<bar> \<le> 1 / 2"
  unfolding round_even_def Let_def by (auto; linarith)

lemma pow2_half: "1 / 2 * pow2 (e + 1) = pow2 e"
  using pow2_add [of e 1] by (simp add: pow2_def)

lemma pow2_diff: "pow2 (e - int p) = pow2 e / 2 ^ p"
  using pow2_add [of "e - int p" "int p"] by (simp add: pow2_def [of "int p"])

lemma rounded_error:
  assumes "x \<noteq> 0" and "e = max (exponent \<bar>x\<bar>) emin" and "ulp = pow2 (e - int p + 1)"
  shows "\<bar>of_int (round_even (x / ulp)) * ulp - x\<bar> \<le> \<bar>x\<bar> / 2 ^ p + pow2 (emin - int p)"
proof -
  have u: "0 < ulp" unfolding assms(3) by (rule pow2_pos)
  have "of_int (round_even (x / ulp)) * ulp - x = (of_int (round_even (x / ulp)) - x / ulp) * ulp"
    using u by (simp add: field_simps)
  then have "\<bar>of_int (round_even (x / ulp)) * ulp - x\<bar> =
      \<bar>of_int (round_even (x / ulp)) - x / ulp\<bar> * ulp"
    using u by (simp add: abs_mult)
  also have "\<dots> \<le> 1 / 2 * ulp"
    using u round_even_error [of "x / ulp"] by (intro mult_right_mono) simp_all
  also have "\<dots> = pow2 (e - int p)"
    unfolding assms(3) by (rule pow2_half)
  finally have h: "\<bar>of_int (round_even (x / ulp)) * ulp - x\<bar> \<le> pow2 (e - int p)" .
  show ?thesis
  proof (cases "emin \<le> exponent \<bar>x\<bar>")
    case True
    then have "e = exponent \<bar>x\<bar>" by (simp add: assms(2))
    then have "pow2 e \<le> \<bar>x\<bar>" using exponent_le [of "\<bar>x\<bar>"] assms(1) by simp
    then have "pow2 (e - int p) \<le> \<bar>x\<bar> / 2 ^ p"
      by (simp add: pow2_diff divide_right_mono)
    with h show ?thesis using pow2_pos [of "emin - int p"] by linarith
  next
    case False
    then have "e = emin" by (simp add: assms(2))
    with h show ?thesis by (simp add: add_increasing)
  qed
qed

lemma round_to_error:
  assumes "round_to p emin emax x = Finite y"
  shows "\<bar>y - x\<bar> \<le> \<bar>x\<bar> / 2 ^ p + pow2 (emin - int p)"
proof (cases "x = 0")
  case True
  with assms show ?thesis using pow2_pos [of "emin - int p"] by (simp add: round_to_def)
next
  case False
  have "y = of_int (round_even (x / pow2 (max (exponent \<bar>x\<bar>) emin - int p + 1))) *
      pow2 (max (exponent \<bar>x\<bar>) emin - int p + 1)"
    using assms False by (simp add: round_to_def Let_def split: if_splits)
  then show ?thesis
    using rounded_error [OF False refl refl, of emin p] by simp
qed

lemma round_to_finite:
  assumes "\<bar>x\<bar> + \<bar>x\<bar> / 2 ^ p + pow2 (emin - int p) < pow2 (emax + 1)"
  shows "\<exists>y. round_to p emin emax x = Finite y"
proof (cases "x = 0")
  case True
  then show ?thesis by (simp add: round_to_def)
next
  case False
  let ?y = "of_int (round_even (x / pow2 (max (exponent \<bar>x\<bar>) emin - int p + 1))) *
      pow2 (max (exponent \<bar>x\<bar>) emin - int p + 1)"
  have "\<bar>?y - x\<bar> \<le> \<bar>x\<bar> / 2 ^ p + pow2 (emin - int p)"
    by (rule rounded_error [OF False refl refl])
  with assms have "\<bar>?y\<bar> < pow2 (emax + 1)" by linarith
  then show ?thesis
    using False by (simp add: round_to_def Let_def)
qed


lemma float32_error:
  assumes "float32 x = Finite y"
  shows "\<bar>y - x\<bar> \<le> \<bar>x\<bar> / 2 ^ 24 + 1 / 2 ^ 150"
  using round_to_error [of 24 "- 126" 127 x y] assms
  by (simp add: float32_def pow2_def)

lemma float32_finite:
  assumes "\<bar>x\<bar> \<le> 2 ^ 127"
  shows "\<exists>y. float32 x = Finite y"
proof -
  have "\<bar>x\<bar> + \<bar>x\<bar> / 2 ^ 24 + pow2 (- 126 - int 24) < pow2 (127 + 1)"
    using assms by (simp add: pow2_def)
  then show ?thesis
    unfolding float32_def by (rule round_to_finite)
qed

lemma float32_2: "float32 2 = Finite 2"
  by (simp add: float32_def round_to_def exponent_def pow2_def round_even_def Let_def compute_bitlen)

lemma float32_4: "float32 4 = Finite 4"
  by (simp add: float32_def round_to_def exponent_def pow2_def round_even_def Let_def compute_bitlen)

text \<open>
  One float32 rounding of \<open>x\<close> with \<open>\<bar>x\<bar> \<le> B \<le> 2 ^ 127\<close>: the result is finite, its
  distance \<open>E\<close> from \<open>x\<close> is at most \<open>B / 2 ^ 24 + 1 / 2 ^ 150\<close>, and its magnitude at
  most \<open>B + E\<close>.
\<close>

lemma float32_step:
  assumes "\<bar>x\<bar> \<le> B" and "B \<le> 2 ^ 127"
  obtains y where "float32 x = Finite y" and "\<bar>y - x\<bar> \<le> B / 2 ^ 24 + 1 / 2 ^ 150"
    and "\<bar>y\<bar> \<le> B + \<bar>y - x\<bar>"
proof -
  from assms have "\<bar>x\<bar> \<le> 2 ^ 127" by linarith
  from float32_finite [OF this] obtain y where y: "float32 x = Finite y" ..
  from float32_error [OF y] have "\<bar>y - x\<bar> \<le> \<bar>x\<bar> / 2 ^ 24 + 1 / 2 ^ 150" .
  moreover have "\<bar>x\<bar> / 2 ^ 24 \<le> B / 2 ^ 24"
    using assms(1) by (simp add: divide_right_mono)
  ultimately have e: "\<bar>y - x\<bar> \<le> B / 2 ^ 24 + 1 / 2 ^ 150" by linarith
  have "\<bar>y\<bar> \<le> \<bar>x\<bar> + \<bar>y - x\<bar>" by linarith
  with assms(1) have "\<bar>y\<bar> \<le> B + \<bar>y - x\<bar>" by linarith
  with y e show ?thesis by (rule that)
qed

lemma pelvis_tolerance:
  assumes a: "\<bar>a\<bar> \<le> 2 ^ 100" and b: "\<bar>b\<bar> \<le> 2 ^ 100"
  shows "\<exists>q. f32_div (f32_add (Finite a) (Finite b)) 2 = Finite q \<and>
           \<bar>q - (a + b) / 2\<bar> \<le> 3 * \<bar>(a + b) / 2\<bar> / 2 ^ 24 + 1 / 2 ^ 149 \<and>
           \<bar>q\<bar> \<le> 2 ^ 101"
proof -
  define S where "S = \<bar>a + b\<bar>"
  have S0: "0 \<le> S" by (simp add: S_def)
  have "S \<le> \<bar>a\<bar> + \<bar>b\<bar>" unfolding S_def by (rule abs_triangle_ineq)
  with a b have S: "S \<le> 2 ^ 101" by simp
  then have S': "S \<le> 2 ^ 127" by simp
  from float32_step [of "a + b" S, OF _ S'] obtain r where r: "float32 (a + b) = Finite r"
    and "\<bar>r - (a + b)\<bar> \<le> S / 2 ^ 24 + 1 / 2 ^ 150" and "\<bar>r\<bar> \<le> S + \<bar>r - (a + b)\<bar>"
    by (auto simp: S_def)
  define E1 where "E1 = \<bar>r - (a + b)\<bar>"
  define R where "R = \<bar>r / 2\<bar>"
  have E1: "E1 \<le> S / 2 ^ 24 + 1 / 2 ^ 150" "0 \<le> E1" and R: "R \<le> (S + E1) / 2" "0 \<le> R"
    using \<open>\<bar>r - (a + b)\<bar> \<le> S / 2 ^ 24 + 1 / 2 ^ 150\<close> \<open>\<bar>r\<bar> \<le> S + \<bar>r - (a + b)\<bar>\<close>
    by (simp_all add: E1_def R_def)
  have R': "R \<le> 2 ^ 127" using R E1 S by (simp; linarith)
  from float32_step [of "r / 2" R, OF _ R'] obtain q where q: "float32 (r / 2) = Finite q"
    and "\<bar>q - r / 2\<bar> \<le> R / 2 ^ 24 + 1 / 2 ^ 150" and "\<bar>q\<bar> \<le> R + \<bar>q - r / 2\<bar>"
    by (auto simp: R_def)
  define E2 where "E2 = \<bar>q - r / 2\<bar>"
  have E2: "E2 \<le> R / 2 ^ 24 + 1 / 2 ^ 150" "0 \<le> E2" and Q: "\<bar>q\<bar> \<le> R + E2"
    using \<open>\<bar>q - r / 2\<bar> \<le> R / 2 ^ 24 + 1 / 2 ^ 150\<close> \<open>\<bar>q\<bar> \<le> R + \<bar>q - r / 2\<bar>\<close>
    by (simp_all add: E2_def)
  have "q - (a + b) / 2 = (q - r / 2) + (r - (a + b)) / 2"
    by (simp add: diff_divide_distrib)
  then have "\<bar>q - (a + b) / 2\<bar> = \<bar>(q - r / 2) + (r - (a + b)) / 2\<bar>"
    by (rule arg_cong)
  also have "\<dots> \<le> \<bar>q - r / 2\<bar> + \<bar>(r - (a + b)) / 2\<bar>"
    by (rule abs_triangle_ineq)
  also have "\<dots> = E2 + E1 / 2"
    by (simp add: E1_def E2_def)
  finally have D: "\<bar>q - (a + b) / 2\<bar> \<le> E2 + E1 / 2" .
  have M: "\<bar>(a + b) / 2\<bar> = S / 2" by (simp add: S_def)
  have "f32_div (f32_add (Finite a) (Finite b)) 2 = Finite q"
    by (simp add: r q float32_2)
  moreover have "\<bar>q - (a + b) / 2\<bar> \<le> 3 * \<bar>(a + b) / 2\<bar> / 2 ^ 24 + 1 / 2 ^ 149"
    unfolding M using D E1 E2 R S0 by (simp; linarith)
  moreover have "\<bar>q\<bar> \<le> 2 ^ 101"
    using Q E1 E2 R S S0 by (simp; linarith)
  ultimately show ?thesis by blast
qed


lemma thorax_tolerance:
  assumes q: "\<bar>q\<bar> \<le> 2 ^ 101" and c: "\<bar>c\<bar> \<le> 2 ^ 100" and d: "\<bar>d\<bar> \<le> 2 ^ 100"
  shows "\<exists>t. f32_div (f32_add (f32_add (f32_mul (float32 2) (Finite q)) (Finite c)) (Finite d))
             4 = Finite t \<and>
           \<bar>t - (2 * q + c + d) / 4\<bar> \<le>
             5 * ((2 * \<bar>q\<bar> + \<bar>c\<bar> + \<bar>d\<bar>) / 4) / 2 ^ 24 + 1 / 2 ^ 149"
proof -
  define Q where "Q = \<bar>q\<bar>"
  define C where "C = \<bar>c\<bar>"
  define D where "D = \<bar>d\<bar>"
  have n: "0 \<le> Q" "0 \<le> C" "0 \<le> D" and b: "Q \<le> 2 ^ 101" "C \<le> 2 ^ 100" "D \<le> 2 ^ 100"
    using q c d by (simp_all add: Q_def C_def D_def)
  have B1: "2 * Q \<le> 2 ^ 127" using b by simp
  have A1: "\<bar>2 * q\<bar> \<le> 2 * Q" by (simp add: Q_def)
  from float32_step [OF A1 B1] obtain x1 where x1: "float32 (2 * q) = Finite x1"
    and "\<bar>x1 - 2 * q\<bar> \<le> 2 * Q / 2 ^ 24 + 1 / 2 ^ 150" and "\<bar>x1\<bar> \<le> 2 * Q + \<bar>x1 - 2 * q\<bar>"
    by blast
  define E1 where "E1 = \<bar>x1 - 2 * q\<bar>"
  have E1: "E1 \<le> 2 * Q / 2 ^ 24 + 1 / 2 ^ 150" "0 \<le> E1" and X1: "\<bar>x1\<bar> \<le> 2 * Q + E1"
    using \<open>\<bar>x1 - 2 * q\<bar> \<le> 2 * Q / 2 ^ 24 + 1 / 2 ^ 150\<close> \<open>\<bar>x1\<bar> \<le> 2 * Q + \<bar>x1 - 2 * q\<bar>\<close>
    by (simp_all add: E1_def)
  have "\<bar>x1 + c\<bar> \<le> \<bar>x1\<bar> + \<bar>c\<bar>" by (rule abs_triangle_ineq)
  with X1 have A2: "\<bar>x1 + c\<bar> \<le> 2 * Q + E1 + C" by (simp add: C_def)
  have s1: "E1 \<le> 2 ^ 80" using E1(1) b(1) by (simp; argo)
  have B2: "2 * Q + E1 + C \<le> 2 ^ 127" using s1 b by (simp; argo)
  from float32_step [OF A2 B2] obtain x2 where x2: "float32 (x1 + c) = Finite x2"
    and "\<bar>x2 - (x1 + c)\<bar> \<le> (2 * Q + E1 + C) / 2 ^ 24 + 1 / 2 ^ 150"
    and "\<bar>x2\<bar> \<le> 2 * Q + E1 + C + \<bar>x2 - (x1 + c)\<bar>"
    by blast
  define E2 where "E2 = \<bar>x2 - (x1 + c)\<bar>"
  have E2: "E2 \<le> (2 * Q + E1 + C) / 2 ^ 24 + 1 / 2 ^ 150" "0 \<le> E2"
    and X2: "\<bar>x2\<bar> \<le> 2 * Q + E1 + C + E2"
    using \<open>\<bar>x2 - (x1 + c)\<bar> \<le> (2 * Q + E1 + C) / 2 ^ 24 + 1 / 2 ^ 150\<close>
      \<open>\<bar>x2\<bar> \<le> 2 * Q + E1 + C + \<bar>x2 - (x1 + c)\<bar>\<close>
    by (simp_all add: E2_def)
  have "\<bar>x2 + d\<bar> \<le> \<bar>x2\<bar> + \<bar>d\<bar>" by (rule abs_triangle_ineq)
  with X2 have A3: "\<bar>x2 + d\<bar> \<le> 2 * Q + E1 + C + E2 + D" by (simp add: D_def)
  have s2: "E2 \<le> 2 ^ 80" using E2(1) s1 b(1,2) by (simp; argo)
  have B3: "2 * Q + E1 + C + E2 + D \<le> 2 ^ 127" using s1 s2 b by (simp; argo)
  from float32_step [OF A3 B3] obtain x3 where x3: "float32 (x2 + d) = Finite x3"
    and "\<bar>x3 - (x2 + d)\<bar> \<le> (2 * Q + E1 + C + E2 + D) / 2 ^ 24 + 1 / 2 ^ 150"
    and "\<bar>x3\<bar> \<le> 2 * Q + E1 + C + E2 + D + \<bar>x3 - (x2 + d)\<bar>"
    by blast
  define E3 where "E3 = \<bar>x3 - (x2 + d)\<bar>"
  have E3: "E3 \<le> (2 * Q + E1 + C + E2 + D) / 2 ^ 24 + 1 / 2 ^ 150" "0 \<le> E3"
    and X3: "\<bar>x3\<bar> \<le> 2 * Q + E1 + C + E2 + D + E3"
    using \<open>\<bar>x3 - (x2 + d)\<bar> \<le> (2 * Q + E1 + C + E2 + D) / 2 ^ 24 + 1 / 2 ^ 150\<close>
      \<open>\<bar>x3\<bar> \<le> 2 * Q + E1 + C + E2 + D + \<bar>x3 - (x2 + d)\<bar>\<close>
    by (simp_all add: E3_def)
  have A4: "\<bar>x3 / 4\<bar> \<le> (2 * Q + E1 + C + E2 + D + E3) / 4" using X3 by simp
  have s3: "E3 \<le> 2 ^ 80" using E3(1) s1 s2 b by (simp; argo)
  have B4: "(2 * Q + E1 + C + E2 + D + E3) / 4 \<le> 2 ^ 127" using s1 s2 s3 b by (simp; argo)
  from float32_step [OF A4 B4] obtain t where t: "float32 (x3 / 4) = Finite t"
    and "\<bar>t - x3 / 4\<bar> \<le> (2 * Q + E1 + C + E2 + D + E3) / 4 / 2 ^ 24 + 1 / 2 ^ 150"
    by blast
  define E4 where "E4 = \<bar>t - x3 / 4\<bar>"
  have E4: "E4 \<le> (2 * Q + E1 + C + E2 + D + E3) / 4 / 2 ^ 24 + 1 / 2 ^ 150"
    using \<open>\<bar>t - x3 / 4\<bar> \<le> (2 * Q + E1 + C + E2 + D + E3) / 4 / 2 ^ 24 + 1 / 2 ^ 150\<close>
    by (simp add: E4_def)
  have "x3 - (2 * q + c + d) = (x3 - (x2 + d)) + ((x2 - (x1 + c)) + (x1 - 2 * q))"
    by simp
  then have "\<bar>x3 - (2 * q + c + d)\<bar> = \<bar>(x3 - (x2 + d)) + ((x2 - (x1 + c)) + (x1 - 2 * q))\<bar>"
    by (rule arg_cong)
  also have "\<dots> \<le> \<bar>x3 - (x2 + d)\<bar> + \<bar>(x2 - (x1 + c)) + (x1 - 2 * q)\<bar>"
    by (rule abs_triangle_ineq)
  also have "\<dots> \<le> \<bar>x3 - (x2 + d)\<bar> + (\<bar>x2 - (x1 + c)\<bar> + \<bar>x1 - 2 * q\<bar>)"
    by (intro add_left_mono abs_triangle_ineq)
  finally have N: "\<bar>x3 - (2 * q + c + d)\<bar> \<le> E3 + E2 + E1"
    by (simp add: E1_def E2_def E3_def)
  have "t - (2 * q + c + d) / 4 = (t - x3 / 4) + (x3 - (2 * q + c + d)) / 4"
    by (simp add: diff_divide_distrib)
  then have "\<bar>t - (2 * q + c + d) / 4\<bar> = \<bar>(t - x3 / 4) + (x3 - (2 * q + c + d)) / 4\<bar>"
    by (rule arg_cong)
  also have "\<dots> \<le> \<bar>t - x3 / 4\<bar> + \<bar>(x3 - (2 * q + c + d)) / 4\<bar>"
    by (rule abs_triangle_ineq)
  also have "\<dots> \<le> E4 + (E3 + E2 + E1) / 4"
    using N by (simp add: E4_def)
  finally have T: "\<bar>t - (2 * q + c + d) / 4\<bar> \<le> E4 + (E3 + E2 + E1) / 4" .
  have "f32_div (f32_add (f32_add (f32_mul (float32 2) (Finite q)) (Finite c)) (Finite d))
             4 = Finite t"
    by (simp add: float32_2 float32_4 x1 x2 x3 t)
  moreover have "\<bar>t - (2 * q + c + d) / 4\<bar> \<le> 5 * ((2 * Q + C + D) / 4) / 2 ^ 24 + 1 / 2 ^ 149"
    using T E1 E2 E3 E4 n by (simp; argo)
  ultimately show ?thesis unfolding Q_def C_def D_def by blast
qed

lemma float32_0: "float32 0 = Finite 0"
  by (simp add: float32_def round_to_def)

lemma float32_1: "float32 1 = Finite 1"
  by (simp add: float32_def round_to_def exponent_def pow2_def round_even_def Let_def compute_bitlen)

lemma float64_1: "float64 1 = Finite 1"
  by (simp add: float64_def round_to_def exponent_def pow2_def round_even_def Let_def compute_bitlen)

lemma float32_255: "float32 255 = Finite 255"
  by (simp add: float32_def round_to_def exponent_def pow2_def round_even_def Let_def compute_bitlen)

text \<open>With transparency 0 the colours 0 and 255 overwrite a black pixel as they are.\<close>

lemma blend_opaque: "blend 0 0 255 = 255" "blend 0 0 0 = 0"
  by (simp_all add: blend_def to_uint8_def py_int_def float32_0 float32_1 float64_1 float32_255)

section \<open>The disc rasterizer\<close>

lemma slice_index_inside:
  "0 \<le> i \<Longrightarrow> i \<le> int n \<Longrightarrow> slice_index n i = nat i"
  by (simp add: slice_index_def)

lemma npcircle_inside:
  assumes w: "wf3 img" and r: "0 \<le> py_int radius"
    and y: "0 \<le> py_int cy - py_int radius" "py_int cy + py_int radius \<le> int (shape0 img)"
    and x: "0 \<le> py_int cx - py_int radius" "py_int cx + py_int radius \<le> int (shape1 img)"
    and c: "length color = shape2 img"
  shows "\<exists>out. npcircle img cx cy radius color transparency = Inr out \<and>
           shape0 out = shape0 img \<and> shape1 out = shape1 img \<and> shape2 out = shape2 img \<and>
           (\<forall>i < shape0 img. \<forall>j < shape1 img.
              pixel out i j =
                (if disc_hit (py_int cx) (py_int cy) (py_int radius) i j
                 then map2 (blend transparency) (pixel img i j) color
                 else pixel img i j))"
proof -
  define R where "R = py_int radius"
  define X where "X = py_int cx"
  define Y where "Y = py_int cy"
  have s: "slice_index (shape0 img) (Y - R) = nat (Y - R)"
    "slice_index (shape0 img) (Y + R) = nat (Y + R)"
    "slice_index (shape1 img) (X - R) = nat (X - R)"
    "slice_index (shape1 img) (X + R) = nat (X + R)"
    using r x y unfolding R_def X_def Y_def by (simp_all add: slice_index_inside)
  have len: "nat (Y + R) - nat (Y - R) = nat (2 * R)" "nat (X + R) - nat (X - R) = nat (2 * R)"
    using r x y unfolding R_def X_def Y_def by simp_all
  have m: "(nat (Y - R) \<le> i \<and> i < nat (Y + R) \<and> nat (X - R) \<le> j \<and> j < nat (X + R) \<and>
        disc_mask R (i - nat (Y - R)) (j - nat (X - R))) = disc_hit X Y R i j" for i j
    using r x y unfolding R_def X_def Y_def
    by (auto simp: disc_mask_def disc_hit_def Let_def nat_le_iff nat_less_iff of_nat_diff algebra_simps)
  let ?out = "img\<lparr>elems :=
             map (\<lambda>(i, row).
               map (\<lambda>(j, p).
                 if disc_hit X Y R i j
                 then map2 (blend transparency) p color else p)
               (enumerate 0 row))
             (enumerate 0 (elems img))\<rparr>"
  have e: "npcircle img cx cy radius color transparency = Inr ?out"
    by (simp add: npcircle_def Let_def R_def [symmetric] X_def [symmetric] Y_def [symmetric]
        s len broadcast_color_def c ebind_def m)
  have p: "pixel ?out i j =
      (if disc_hit X Y R i j then map2 (blend transparency) (pixel img i j) color else pixel img i j)"
    if "i < shape0 img" "j < shape1 img" for i j
    using w that by (simp add: wf3_def pixel_def nth_enumerate_eq)
  show ?thesis
    using e p unfolding R_def X_def Y_def by auto
qed


lemma wf3_zeros3: "wf3 (zeros3 h w c)"
  by (simp add: wf3_def zeros3_def)

lemma pixel_zeros3: "i < h \<Longrightarrow> j < w \<Longrightarrow> pixel (zeros3 h w c) i j = replicate c 0"
  by (simp add: pixel_def zeros3_def)

text \<open>
  C5. On the black 100 by 100 image, the disc of radius 8 around \<open>(50, 50)\<close> with colour
  \<open>[255, 0, 0]\<close> and transparency 0 is drawn without an exception, and the pixels set to
  \<open>[255, 0, 0]\<close> are exactly those at offsets \<open>dx\<close>, \<open>dy\<close> from -8 to 7 with
  \<open>dx\<^sup>2 + dy\<^sup>2 \<le> 64\<close>; all others stay black. The grid of offsets stops at 7: the pixels
  at the offsets \<open>(8, 0)\<close> and \<open>(0, 8)\<close>, for which \<open>dx\<^sup>2 + dy\<^sup>2 = 64\<close>, stay black, while
  those at \<open>(-8, 0)\<close> and \<open>(0, -8)\<close> are set. (A pixel is \<open>pixel a y x\<close>: row first.)
\<close>

theorem npcircle_misses_offset_radius:
  "\<exists>out. npcircle black100 50 50 8 [255, 0, 0] 0 = Inr out \<and>
     (\<forall>i < 100. \<forall>j < 100.
        pixel out i j =
          (if - 8 \<le> int j - 50 \<and> int j - 50 < 8 \<and> - 8 \<le> int i - 50 \<and> int i - 50 < 8 \<and>
              (int j - 50)\<^sup>2 + (int i - 50)\<^sup>2 \<le> 64
           then [255, 0, 0] else [0, 0, 0])) \<and>
     pixel out 50 58 = [0, 0, 0] \<and> pixel out 58 50 = [0, 0, 0] \<and>
     pixel out 50 42 = [255, 0, 0] \<and> pixel out 42 50 = [255, 0, 0]"
proof -
  have i: "py_int 50 = 50" "py_int 8 = 8" by (simp_all add: py_int_def)
  have sh: "shape0 black100 = 100" "shape1 black100 = 100" "shape2 black100 = 3"
    by (simp_all add: black100_def zeros3_def)
  have wfb: "wf3 black100"
    by (simp add: black100_def wf3_zeros3)
  have "\<exists>out. npcircle black100 50 50 8 [255, 0, 0] 0 = Inr out \<and>
           shape0 out = shape0 black100 \<and> shape1 out = shape1 black100 \<and>
           shape2 out = shape2 black100 \<and>
           (\<forall>i < shape0 black100. \<forall>j < shape1 black100.
              pixel out i j =
                (if disc_hit (py_int 50) (py_int 50) (py_int 8) i j
                 then map2 (blend 0) (pixel black100 i j) [255, 0, 0]
                 else pixel black100 i j))"
    by (rule npcircle_inside) (simp_all add: i sh wfb)
  then obtain out where o: "npcircle black100 50 50 8 [255, 0, 0] 0 = Inr out"
    and p: "\<And>i j. i < 100 \<Longrightarrow> j < 100 \<Longrightarrow> pixel out i j =
                (if disc_hit 50 50 8 i j
                 then map2 (blend 0) (pixel black100 i j) [255, 0, 0]
                 else pixel black100 i j)"
    unfolding i sh by blast
  note b = blend_opaque
  have z: "replicate 3 (0 :: 8 word) = [0, 0, 0]" by (simp add: numeral_3_eq_3)
  have q: "pixel out i j =
          (if - 8 \<le> int j - 50 \<and> int j - 50 < 8 \<and> - 8 \<le> int i - 50 \<and> int i - 50 < 8 \<and>
              (int j - 50)\<^sup>2 + (int i - 50)\<^sup>2 \<le> 64
           then [255, 0, 0] else [0, 0, 0])" if "i < 100" "j < 100" for i j
    using that by (simp add: p black100_def pixel_zeros3 b z disc_hit_def Let_def)
  have "pixel out 50 58 = [0, 0, 0]" "pixel out 58 50 = [0, 0, 0]"
    "pixel out 50 42 = [255, 0, 0]" "pixel out 42 50 = [255, 0, 0]"
    by (simp_all add: q)
  with o q show ?thesis by blast
qed

theorem npcircle_misses_offset_radius_witness:
  "\<exists>out. npcircle black100 50 50 8 [255, 0, 0] 0 = Inr out \<and>
         pixel out 50 58 = [0, 0, 0] \<and> pixel out 50 42 = [255, 0, 0]"
  using npcircle_misses_offset_radius by blast


text \<open>
  C6, as stated, fails: a disc of radius 8 around \<open>(3, 50)\<close> on the 100 by 100 image
  reaches over the left border, and the rasterizer raises \<open>IndexError\<close> instead of
  drawing the part inside; a disc around \<open>(-20, 50)\<close>, wholly to the left of the image,
  is drawn around column 80, on the opposite side.
\<close>

theorem npcircle_border_counterexample:
  "npcircle black100 3 50 8 [255, 0, 0] 0 = Inl IndexError \<and>
   (case npcircle black100 (- 20) 50 8 [255, 0, 0] 0 of
      Inl e \<Rightarrow> False
    | Inr out \<Rightarrow> pixel out 50 80 = [255, 0, 0])"
  by (simp add: npcircle_def py_int_def slice_index_def broadcast_color_def ebind_def
      black100_def zeros3_def pixel_def nth_enumerate_eq disc_mask_def blend_opaque
      Let_def numeral_3_eq_3)

text \<open>
  C6, amended. For a disc of radius at least 1 whose bounding box, the columns
  \<open>cx - r\<close> up to \<open>cx + r - 1\<close> and the rows \<open>cy - r\<close> up to \<open>cy + r - 1\<close>, is not
  contained in the image and does not lie wholly before index 0 on an axis, the rasterizer
  raises \<open>IndexError\<close>; no pixel is written, the part of the disc inside the image
  included.
\<close>

theorem npcircle_box_outside_raises:
  assumes "1 \<le> py_int radius"
    and "py_int cx - py_int radius < 0 \<or> int (shape1 img) < py_int cx + py_int radius \<or>
         py_int cy - py_int radius < 0 \<or> int (shape0 img) < py_int cy + py_int radius"
    and "0 \<le> py_int cx + py_int radius" and "0 \<le> py_int cy + py_int radius"
  shows "npcircle img cx cy radius color transparency = Inl IndexError"
  using assms slice_window_outside [of "py_int radius" "py_int cx" "shape1 img"]
    slice_window_outside [of "py_int radius" "py_int cy" "shape0 img"]
  by (auto simp: npcircle_def Let_def)

theorem npcircle_box_outside_raises_witness:
  "1 \<le> py_int 8 \<and>
   (py_int 17 - py_int 8 < 0 \<or> int (shape1 black20) < py_int 17 + py_int 8 \<or>
    py_int 10 - py_int 8 < 0 \<or> int (shape0 black20) < py_int 10 + py_int 8) \<and>
   0 \<le> py_int 17 + py_int 8 \<and> 0 \<le> py_int 10 + py_int 8 \<and>
   npcircle black20 17 10 8 [255, 0, 0] 0 = Inl IndexError"
proof -
  have h: "1 \<le> py_int 8" "0 \<le> py_int 17 + py_int 8" "0 \<le> py_int 10 + py_int 8"
    by (simp_all add: py_int_def)
  have b: "py_int 17 - py_int 8 < 0 \<or> int (shape1 black20) < py_int 17 + py_int 8 \<or>
      py_int 10 - py_int 8 < 0 \<or> int (shape0 black20) < py_int 10 + py_int 8"
    by (simp add: py_int_def black20_def zeros3_def)
  from npcircle_box_outside_raises [OF h(1) b h(2) h(3)] h b show ?thesis by blast
qed

text \<open>
  C10. The centre and the radius enter the disc only through \<open>int\<close>, which truncates
  towards zero. Two calls whose centres and radii have the same truncations return the
  same result, which is that of the call at the truncated values; and when the box of
  the truncated centre and radius lies inside the image, that result is the image with
  exactly the pixels of the disc around the truncated centre with the truncated radius
  blended, for either keypoint.
\<close>

theorem npcircle_truncates_coordinates:
  assumes "truncate_towards_zero cx = truncate_towards_zero cx2"
    and "truncate_towards_zero cy = truncate_towards_zero cy2"
    and "truncate_towards_zero radius = truncate_towards_zero radius2"
  shows "npcircle img cx cy radius color transparency =
           npcircle img cx2 cy2 radius2 color transparency \<and>
         npcircle img cx cy radius color transparency =
           npcircle img (truncate_towards_zero cx) (truncate_towards_zero cy)
             (truncate_towards_zero radius) color transparency \<and>
         real_of_int (py_int cx) = truncate_towards_zero cx \<and>
         real_of_int (py_int cy) = truncate_towards_zero cy \<and>
         real_of_int (py_int radius) = truncate_towards_zero radius \<and>
         (wf3 img \<and> length color = shape2 img \<and> 0 \<le> truncate_towards_zero radius \<and>
          truncate_towards_zero radius \<le> truncate_towards_zero cy \<and>
          truncate_towards_zero cy + truncate_towards_zero radius \<le> real (shape0 img) \<and>
          truncate_towards_zero radius \<le> truncate_towards_zero cx \<and>
          truncate_towards_zero cx + truncate_towards_zero radius \<le> real (shape1 img) \<longrightarrow>
          (\<exists>out. npcircle img cx2 cy2 radius2 color transparency = Inr out \<and>
             shape0 out = shape0 img \<and> shape1 out = shape1 img \<and> shape2 out = shape2 img \<and>
             (\<forall>i < shape0 img. \<forall>j < shape1 img.
                pixel out i j =
                  (if disc_hit \<lfloor>truncate_towards_zero cx\<rfloor> \<lfloor>truncate_towards_zero cy\<rfloor>
                        \<lfloor>truncate_towards_zero radius\<rfloor> i j
                   then map2 (blend transparency) (pixel img i j) color
                   else pixel img i j))))"
proof -
  note e = assms [THEN py_int_cong]
  have f: "\<lfloor>truncate_towards_zero q\<rfloor> = py_int q" for q
    by (simp add: py_int_truncates [symmetric])
  have a: "npcircle img cx cy radius color transparency =
           npcircle img cx2 cy2 radius2 color transparency"
    by (simp add: npcircle_def e)
  have b: "npcircle img cx cy radius color transparency =
           npcircle img (truncate_towards_zero cx) (truncate_towards_zero cy)
             (truncate_towards_zero radius) color transparency"
    by (simp add: npcircle_def py_int_truncates [symmetric] py_int_of_int)
  have c: "\<exists>out. npcircle img cx2 cy2 radius2 color transparency = Inr out \<and>
             shape0 out = shape0 img \<and> shape1 out = shape1 img \<and> shape2 out = shape2 img \<and>
             (\<forall>i < shape0 img. \<forall>j < shape1 img.
                pixel out i j =
                  (if disc_hit \<lfloor>truncate_towards_zero cx\<rfloor> \<lfloor>truncate_towards_zero cy\<rfloor>
                        \<lfloor>truncate_towards_zero radius\<rfloor> i j
                   then map2 (blend transparency) (pixel img i j) color
                   else pixel img i j))"
    if h: "wf3 img \<and> length color = shape2 img \<and> 0 \<le> truncate_towards_zero radius \<and>
          truncate_towards_zero radius \<le> truncate_towards_zero cy \<and>
          truncate_towards_zero cy + truncate_towards_zero radius \<le> real (shape0 img) \<and>
          truncate_towards_zero radius \<le> truncate_towards_zero cx \<and>
          truncate_towards_zero cx + truncate_towards_zero radius \<le> real (shape1 img)"
  proof -
    have r: "0 \<le> py_int radius" "py_int radius \<le> py_int cy" "py_int radius \<le> py_int cx"
      "py_int cy + py_int radius \<le> int (shape0 img)"
      "py_int cx + py_int radius \<le> int (shape1 img)"
      using h unfolding py_int_truncates [symmetric] by linarith+
    have "\<exists>out. npcircle img cx cy radius color transparency = Inr out \<and>
           shape0 out = shape0 img \<and> shape1 out = shape1 img \<and> shape2 out = shape2 img \<and>
           (\<forall>i < shape0 img. \<forall>j < shape1 img.
              pixel out i j =
                (if disc_hit (py_int cx) (py_int cy) (py_int radius) i j
                 then map2 (blend transparency) (pixel img i j) color
                 else pixel img i j))"
      using h r by (intro npcircle_inside) simp_all
    then show ?thesis unfolding f a .
  qed
  show ?thesis
    by (rule conjI [OF a conjI [OF b conjI [OF py_int_truncates conjI [OF py_int_truncates
      conjI [OF py_int_truncates impI [OF c]]]]]])
qed

theorem npcircle_truncates_coordinates_witness:
  "truncate_towards_zero (107 / 10) = truncate_towards_zero (10 + 1 / 4) \<and>
   truncate_towards_zero (43 / 4) = truncate_towards_zero (41 / 4) \<and>
   truncate_towards_zero (17 / 2) = truncate_towards_zero 8 \<and>
   npcircle black20 (107 / 10) (43 / 4) (17 / 2) [255, 0, 0] 0 =
     npcircle black20 (10 + 1 / 4) (41 / 4) 8 [255, 0, 0] 0 \<and>
   (\<exists>out. npcircle black20 (10 + 1 / 4) (41 / 4) 8 [255, 0, 0] 0 = Inr out \<and>
      pixel out 10 2 = [255, 0, 0] \<and> pixel out 10 18 = [0, 0, 0] \<and>
      pixel out 2 10 = [255, 0, 0] \<and> pixel out 18 10 = [0, 0, 0])"
proof -
  have h: "truncate_towards_zero (107 / 10) = truncate_towards_zero (10 + 1 / 4)"
    "truncate_towards_zero (43 / 4) = truncate_towards_zero (41 / 4)"
    "truncate_towards_zero (17 / 2) = truncate_towards_zero 8"
    by (simp_all add: truncate_towards_zero_def)
  note t = npcircle_truncates_coordinates [OF h, of black20 "[255, 0, 0]" 0]
  have v: "truncate_towards_zero (107 / 10) = 10" "truncate_towards_zero (43 / 4) = 10"
    "truncate_towards_zero (17 / 2) = 8"
    by (simp_all add: truncate_towards_zero_def)
  have sh: "shape0 black20 = 20" "shape1 black20 = 20" "shape2 black20 = 3"
    by (simp_all add: black20_def zeros3_def)
  have w: "wf3 black20" by (simp add: black20_def wf3_zeros3)
  have inside: "wf3 black20 \<and> length [255, 0, 0 :: int] = shape2 black20 \<and>
      0 \<le> truncate_towards_zero (17 / 2) \<and>
      truncate_towards_zero (17 / 2) \<le> truncate_towards_zero (43 / 4) \<and>
      truncate_towards_zero (43 / 4) + truncate_towards_zero (17 / 2) \<le> real (shape0 black20) \<and>
      truncate_towards_zero (17 / 2) \<le> truncate_towards_zero (107 / 10) \<and>
      truncate_towards_zero (107 / 10) + truncate_towards_zero (17 / 2) \<le> real (shape1 black20)"
    by (simp add: v sh w)
  from t [THEN conjunct2, THEN conjunct2, THEN conjunct2, THEN conjunct2, THEN conjunct2,
      THEN mp, OF inside]
  obtain out where c: "npcircle black20 (10 + 1 / 4) (41 / 4) 8 [255, 0, 0] 0 = Inr out \<and>
      shape0 out = shape0 black20 \<and> shape1 out = shape1 black20 \<and> shape2 out = shape2 black20 \<and>
      (\<forall>i < shape0 black20. \<forall>j < shape1 black20.
         pixel out i j =
           (if disc_hit \<lfloor>truncate_towards_zero (107 / 10)\<rfloor> \<lfloor>truncate_towards_zero (43 / 4)\<rfloor>
                 \<lfloor>truncate_towards_zero (17 / 2)\<rfloor> i j
            then map2 (blend 0) (pixel black20 i j) [255, 0, 0]
            else pixel black20 i j))" ..
  note o = c [THEN conjunct1]
  note p = c [THEN conjunct2, THEN conjunct2, THEN conjunct2, THEN conjunct2, rule_format]
  have z: "replicate 3 (0 :: 8 word) = [0, 0, 0]" by (simp add: numeral_3_eq_3)
  have p': "pixel out i j =
      (if disc_hit 10 10 8 i j then map2 (blend 0) (pixel black20 i j) [255, 0, 0]
       else pixel black20 i j)" if "i < 20" "j < 20" for i j
    using p [of i j] that by (simp add: sh v)
  have q: "pixel out 10 2 = [255, 0, 0]" "pixel out 10 18 = [0, 0, 0]"
    "pixel out 2 10 = [255, 0, 0]" "pixel out 18 10 = [0, 0, 0]"
    by (simp_all add: p' black20_def pixel_zeros3 z blend_opaque disc_hit_def Let_def)
  show ?thesis
    by (intro conjI h t [THEN conjunct1] exI [of _ out] o q)
qed

section \<open>The channel remapping\<close>

lemma ebind_Inr [simp]: "ebind (Inr x) f = f x"
  by (simp add: ebind_def)

lemma ebind_Inl [simp]: "ebind (Inl e) f = Inl e"
  by (simp add: ebind_def)

lemma map2_same: "map2 h (map f xs) (map g xs) = map (\<lambda>x. h (f x) (g x)) xs"
  by (induction xs) simp_all

lemma map2_map2_same:
  "map2 (map2 h) (map (map f) xss) (map (map g) xss) = map (map (\<lambda>x. h (f x) (g x))) xss"
  by (simp add: map2_same [where h = "map2 h"] map2_same [where h = h])

lemma zeros_pointwise:
  assumes "wf3 a"
  shows "elems (zeros3 (shape0 a) (shape1 a) c :: 'b::zero ndarray3) = map (map (\<lambda>p. replicate c 0)) (elems a)"
proof -
  have "map (map (\<lambda>p. replicate c (0::'b))) (elems a) = map (\<lambda>r. replicate (shape1 a) (replicate c 0)) (elems a)"
    using assms by (intro map_cong) (auto simp: wf3_def map_replicate_const)
  also have "\<dots> = replicate (shape0 a) (replicate (shape1 a) (replicate c 0))"
    using assms by (simp add: map_replicate_const wf3_def)
  finally show ?thesis by (simp add: zeros3_def)
qed

lemma copy_channels_pointwise:
  assumes "elems um2 = map (map f) (elems um)"
    and "\<forall>j \<in> set js. j < shape2 um2 \<and> j - off < shape2 um"
  shows "copy_channels um off js um2 =
     Inr (um2\<lparr>elems := map (map (\<lambda>p. fold (\<lambda>j q. q[j := p ! (j - off)]) js (f p))) (elems um)\<rparr>)"
  using assms
proof (induction js arbitrary: um2 f)
  case Nil
  then show ?case by simp
next
  case (Cons j js)
  let ?um2' = "um2\<lparr>elems := map (map (\<lambda>p. (f p)[j := p ! (j - off)])) (elems um)\<rparr>"
  have step: "ebind (channel um (j - off)) (set_channel um2 j) = Inr ?um2'"
    using Cons.prems by (simp add: channel_def set_channel_def map2_map2_same)
  have "copy_channels um off js ?um2' =
     Inr (?um2'\<lparr>elems := map (map (\<lambda>p. fold (\<lambda>j q. q[j := p ! (j - off)]) js ((f p)[j := p ! (j - off)]))) (elems um)\<rparr>)"
    using Cons.prems by (intro Cons.IH) simp_all
  then show ?case using Cons.prems
    by (simp add: channel_def set_channel_def map2_map2_same)
qed

lemma add2_pointwise:
  "add2 \<lparr>dim0 = h, dim1 = w, cells = map (map f) xss\<rparr>
        \<lparr>dim0 = h, dim1 = w, cells = map (map g) xss\<rparr> =
     \<lparr>dim0 = h, dim1 = w, cells = map (map (\<lambda>p. f32_add (f p) (g p))) xss\<rparr>"
  by (simp add: add2_def map2_map2_same)

lemma scale2_pointwise:
  "scale2 c \<lparr>dim0 = h, dim1 = w, cells = map (map f) xss\<rparr> =
     \<lparr>dim0 = h, dim1 = w, cells = map (map (\<lambda>p. f32_mul (float32 c) (f p))) xss\<rparr>"
  by (simp add: scale2_def comp_def)

lemma div2_pointwise:
  "div2 \<lparr>dim0 = h, dim1 = w, cells = map (map f) xss\<rparr> c =
     \<lparr>dim0 = h, dim1 = w, cells = map (map (\<lambda>p. f32_div (f p) c)) xss\<rparr>"
  by (simp add: div2_def comp_def)

lemma remap_elems:
  assumes "wf3 um" and "14 \<le> shape2 um"
  shows "remap um = Inr \<lparr>shape0 = shape0 um, shape1 = shape1 um, shape2 = 16,
                          elems = map (map remap_pixel) (elems um)\<rparr>"
proof -
  define Z :: "flt ndarray3" where "Z = zeros3 (shape0 um) (shape1 um) 16"
  define f1 where "f1 = (\<lambda>p::flt list. fold (\<lambda>j q. q[j := p ! (j - 0)]) [0..<6] (replicate 16 0))"
  define f2 where "f2 = (\<lambda>p. (f1 p)[6 := pelvis_of p])"
  define f3 where "f3 = (\<lambda>p. (f2 p)[7 := thorax_of p])"
  define f4 where "f4 = (\<lambda>p. fold (\<lambda>j q. q[j := p ! (j - 2)]) [8..<16] (f3 p))"
  have ch: "channel um k = Inr \<lparr>dim0 = shape0 um, dim1 = shape1 um,
      cells = map (map (\<lambda>p. p ! k)) (elems um)\<rparr>" if "k < 14" for k
    using that assms(2) by (simp add: channel_def)
  have z: "elems Z = map (map (\<lambda>p. replicate 16 0)) (elems um)"
    unfolding Z_def by (rule zeros_pointwise [OF assms(1)])
  have sh: "shape2 Z = 16" "shape0 Z = shape0 um" "shape1 Z = shape1 um"
    by (simp_all add: Z_def zeros3_def)
  have pel: "div2 (add2 \<lparr>dim0 = shape0 um, dim1 = shape1 um, cells = map (map (\<lambda>p. p ! 2)) (elems um)\<rparr>
       \<lparr>dim0 = shape0 um, dim1 = shape1 um, cells = map (map (\<lambda>p. p ! 3)) (elems um)\<rparr>) 2
     = \<lparr>dim0 = shape0 um, dim1 = shape1 um, cells = map (map pelvis_of) (elems um)\<rparr>"
    unfolding pelvis_of_def [abs_def] by (simp only: add2_pointwise div2_pointwise)
  have tho: "div2 (add2 (add2 (scale2 2 \<lparr>dim0 = shape0 um, dim1 = shape1 um, cells = map (map pelvis_of) (elems um)\<rparr>)
       \<lparr>dim0 = shape0 um, dim1 = shape1 um, cells = map (map (\<lambda>p. p ! 12)) (elems um)\<rparr>)
       \<lparr>dim0 = shape0 um, dim1 = shape1 um, cells = map (map (\<lambda>p. p ! 13)) (elems um)\<rparr>) 4
     = \<lparr>dim0 = shape0 um, dim1 = shape1 um, cells = map (map thorax_of) (elems um)\<rparr>"
    unfolding thorax_of_def [abs_def]
    by (simp only: add2_pointwise div2_pointwise scale2_pointwise)
  have c1: "copy_channels um 0 [0..<6] Z = Inr (Z\<lparr>elems := map (map f1) (elems um)\<rparr>)"
    unfolding f1_def using assms(2) by (intro copy_channels_pointwise z) (simp add: sh)
  have s6: "set_channel (Z\<lparr>elems := map (map f1) (elems um)\<rparr>) 6
       \<lparr>dim0 = shape0 um, dim1 = shape1 um, cells = map (map pelvis_of) (elems um)\<rparr>
     = Inr (Z\<lparr>elems := map (map f2) (elems um)\<rparr>)"
    by (simp add: set_channel_def sh map2_map2_same f2_def)
  have s7: "set_channel (Z\<lparr>elems := map (map f2) (elems um)\<rparr>) 7
       \<lparr>dim0 = shape0 um, dim1 = shape1 um, cells = map (map thorax_of) (elems um)\<rparr>
     = Inr (Z\<lparr>elems := map (map f3) (elems um)\<rparr>)"
    by (simp add: set_channel_def sh map2_map2_same f3_def)
  have c2: "copy_channels um 2 [8..<16] (Z\<lparr>elems := map (map f3) (elems um)\<rparr>)
     = Inr (Z\<lparr>elems := map (map f3) (elems um)\<rparr>\<lparr>elems := map (map f4) (elems um)\<rparr>)"
    unfolding f4_def using assms(2) by (intro copy_channels_pointwise) (simp_all add: sh)
  have f4: "f4 p = remap_pixel p" for p
    by (simp add: f4_def f3_def f2_def f1_def remap_pixel_def upt_rec numeral_eq_Suc)
  have "remap um = Inr (Z\<lparr>elems := map (map f3) (elems um)\<rparr>\<lparr>elems := map (map f4) (elems um)\<rparr>)"
    unfolding remap_def Let_def
    by (simp only: ch ebind_Inr pel tho c1 s6 s7 c2 Z_def [symmetric])
  then show ?thesis
    by (simp add: f4 Z_def zeros3_def)
qed

lemma length_remap_pixel: "length (remap_pixel p) = 16"
  by (simp add: remap_pixel_def)

lemma remap_pixel_low: "k < 6 \<Longrightarrow> remap_pixel p ! k = p ! k"
proof -
  assume "k < 6"
  then have "k = 0 \<or> k = 1 \<or> k = 2 \<or> k = 3 \<or> k = 4 \<or> k = 5" by arith
  then show ?thesis by (auto simp: remap_pixel_def)
qed

lemma remap_pixel_high: "8 \<le> k \<Longrightarrow> k < 16 \<Longrightarrow> remap_pixel p ! k = p ! (k - 2)"
proof -
  assume "8 \<le> k" "k < 16"
  then have "k = 8 \<or> k = 9 \<or> k = 10 \<or> k = 11 \<or> k = 12 \<or> k = 13 \<or> k = 14 \<or> k = 15" by arith
  then show ?thesis by (auto simp: remap_pixel_def)
qed

lemma remap_pixel_derived:
  "remap_pixel p ! 6 = f32_div (f32_add (p ! 2) (p ! 3)) 2"
  "remap_pixel p ! 7 =
     f32_div (f32_add (f32_add (f32_mul (float32 2) (remap_pixel p ! 6)) (p ! 12)) (p ! 13))
       4"
  by (simp_all add: remap_pixel_def pelvis_of_def thorax_of_def)

lemma remap_pixel_of_pixel:
  assumes "wf3 um" and "i < shape0 um" and "j < shape1 um"
  shows "pixel \<lparr>shape0 = h, shape1 = w, shape2 = c, elems = map (map remap_pixel) (elems um)\<rparr> i j
           = remap_pixel (pixel um i j)"
  using assms by (simp add: wf3_def pixel_def)

text \<open>
  The remapping of a rectangular stack with 14 channels or more: a stack of the same
  height and width with 16 channels; at every pixel the channels 0 to 5 and 8 to 15 are
  the native channels 0 to 5 and 6 to 13, channel 6 is the float32 quotient by 2 of the
  float32 sum of the native channels 2 and 3, and channel 7 the float32 quotient by 4 of
  twice channel 6 plus the native channels 12 and 13, added in that order.
\<close>

lemma remap_characterised:
  assumes "wf3 um" and "14 \<le> shape2 um"
  shows "\<exists>um2. remap um = Inr um2 \<and> wf3 um2 \<and>
           shape0 um2 = shape0 um \<and> shape1 um2 = shape1 um \<and> shape2 um2 = 16 \<and>
           (\<forall>i < shape0 um. \<forall>j < shape1 um.
              (\<forall>k < 6. pixel um2 i j ! k = pixel um i j ! k) \<and>
              (\<forall>k. 8 \<le> k \<and> k < 16 \<longrightarrow> pixel um2 i j ! k = pixel um i j ! (k - 2)) \<and>
              pixel um2 i j ! 6 =
                f32_div (f32_add (pixel um i j ! 2) (pixel um i j ! 3)) 2 \<and>
              pixel um2 i j ! 7 =
                f32_div
                  (f32_add (f32_add (f32_mul (float32 2) (pixel um2 i j ! 6)) (pixel um i j ! 12))
                     (pixel um i j ! 13))
                  4)"
proof -
  let ?um2 = "\<lparr>shape0 = shape0 um, shape1 = shape1 um, shape2 = 16,
               elems = map (map remap_pixel) (elems um)\<rparr>"
  have r: "remap um = Inr ?um2"
    using assms by (rule remap_elems)
  have w: "wf3 ?um2"
    using assms(1) by (auto simp: wf3_def length_remap_pixel)
  have p: "pixel ?um2 i j = remap_pixel (pixel um i j)" if "i < shape0 um" "j < shape1 um" for i j
    using assms(1) that by (rule remap_pixel_of_pixel)
  have "(\<forall>k < 6. pixel ?um2 i j ! k = pixel um i j ! k) \<and>
        (\<forall>k. 8 \<le> k \<and> k < 16 \<longrightarrow> pixel ?um2 i j ! k = pixel um i j ! (k - 2)) \<and>
        pixel ?um2 i j ! 6 =
          f32_div (f32_add (pixel um i j ! 2) (pixel um i j ! 3)) 2 \<and>
        pixel ?um2 i j ! 7 =
          f32_div
            (f32_add (f32_add (f32_mul (float32 2) (pixel ?um2 i j ! 6)) (pixel um i j ! 12))
               (pixel um i j ! 13))
            4"
    if "i < shape0 um" "j < shape1 um" for i j
    unfolding p [OF that]
    using remap_pixel_derived [of "pixel um i j"]
    by (simp add: remap_pixel_low remap_pixel_high)
  with r w show ?thesis
    by (intro exI [of _ ?um2]) simp
qed

lemma wf3_ramp14: "wf3 ramp14"
  by (simp add: wf3_def ramp14_def)

lemma float32_sum_5: "float32 5 = Finite 5" "float32 (5 / 2) = Finite (5 / 2)"
  "float32 17 = Finite 17" "float32 30 = Finite 30" "float32 (15 / 2) = Finite (15 / 2)"
  by (simp_all add: float32_def round_to_def exponent_def pow2_def round_even_def Let_def
      compute_bitlen)

lemma remap_pixel_ramp:
  "remap_pixel (map Finite [0, 1, 2, 3, 4, 5, 6, 7, 8, 9, 10, 11, 12, 13] @ rest) =
     map Finite [0, 1, 2, 3, 4, 5, 5 / 2, 15 / 2, 6, 7, 8, 9, 10, 11, 12, 13]"
  by (simp add: remap_pixel_def pelvis_of_def thorax_of_def float32_2 float32_4 float32_sum_5)

text \<open>
  C1. For a stack of exactly 14 channels, \<open>remap\<close> returns a stack of the same height and
  width with exactly 16 channels. At every pixel of every such stack the output channels
  0 to 5 are the native channels 0 to 5, the output channels 8 to 15 are the native
  channels 6 to 13, and the channels 6 and 7 are computed: channel 6 is the float32
  quotient by 2 of the float32 sum of the native channels 2 and 3, and channel 7 is the
  float32 quotient by 4 of the float32 sum of twice channel 6 and the native channels 12
  and 13. They are copies of no native channel: on the one-pixel stack whose channel \<open>k\<close>
  holds \<open>k\<close>, they differ from each of the 14 native channels.
\<close>

theorem remap_copies_native_channels:
  assumes "wf3 um" and "shape2 um = 14"
  shows "(\<exists>um2. remap um = Inr um2 \<and> wf3 um2 \<and>
            shape0 um2 = shape0 um \<and> shape1 um2 = shape1 um \<and> shape2 um2 = 16 \<and>
            (\<forall>i < shape0 um. \<forall>j < shape1 um.
               (\<forall>k < 6. pixel um2 i j ! k = pixel um i j ! k) \<and>
               (\<forall>k. 8 \<le> k \<and> k < 16 \<longrightarrow> pixel um2 i j ! k = pixel um i j ! (k - 2)) \<and>
               pixel um2 i j ! 6 = f32_div (f32_add (pixel um i j ! 2) (pixel um i j ! 3)) 2 \<and>
               pixel um2 i j ! 7 =
                 f32_div
                   (f32_add
                      (f32_add (f32_mul (float32 2) (pixel um2 i j ! 6)) (pixel um i j ! 12))
                      (pixel um i j ! 13))
                   4)) \<and>
         (\<exists>v v2. wf3 v \<and> shape2 v = 14 \<and> remap v = Inr v2 \<and>
            (\<forall>k < 14. pixel v2 0 0 ! 6 \<noteq> pixel v 0 0 ! k \<and> pixel v2 0 0 ! 7 \<noteq> pixel v 0 0 ! k))"
proof (rule conjI)
  from assms(2) have "14 \<le> shape2 um" by simp
  with assms(1) show "\<exists>um2. remap um = Inr um2 \<and> wf3 um2 \<and>
            shape0 um2 = shape0 um \<and> shape1 um2 = shape1 um \<and> shape2 um2 = 16 \<and>
            (\<forall>i < shape0 um. \<forall>j < shape1 um.
               (\<forall>k < 6. pixel um2 i j ! k = pixel um i j ! k) \<and>
               (\<forall>k. 8 \<le> k \<and> k < 16 \<longrightarrow> pixel um2 i j ! k = pixel um i j ! (k - 2)) \<and>
               pixel um2 i j ! 6 = f32_div (f32_add (pixel um i j ! 2) (pixel um i j ! 3)) 2 \<and>
               pixel um2 i j ! 7 =
                 f32_div
                   (f32_add
                      (f32_add (f32_mul (float32 2) (pixel um2 i j ! 6)) (pixel um i j ! 12))
                      (pixel um i j ! 13))
                   4)"
    by (rule remap_characterised)
next
  let ?p = "map Finite [0, 1, 2, 3, 4, 5, 6, 7, 8, 9, 10, 11, 12, 13]"
  let ?out = "\<lparr>shape0 = 1, shape1 = 1, shape2 = 16, elems = [[remap_pixel ?p]]\<rparr>"
  have r: "remap ramp14 = Inr ?out"
    using remap_elems [OF wf3_ramp14] by (simp add: ramp14_def)
  have n: "Finite (5 / 2) \<notin> set ?p" "Finite (15 / 2) \<notin> set ?p" by simp_all
  have d: "Finite (5 / 2) \<noteq> ?p ! k \<and> Finite (15 / 2) \<noteq> ?p ! k" if "k < 14" for k
  proof -
    from that have "?p ! k \<in> set ?p" by (intro nth_mem) simp
    with n show ?thesis by metis
  qed
  have v: "remap_pixel ?p ! 6 = Finite (5 / 2)" "remap_pixel ?p ! 7 = Finite (15 / 2)"
    using remap_pixel_ramp [of "[]"] by simp_all
  have px: "pixel ramp14 0 0 = ?p" "pixel ?out 0 0 = remap_pixel ?p"
    by (simp_all add: pixel_def ramp14_def)
  have "\<forall>k < 14. pixel ?out 0 0 ! 6 \<noteq> pixel ramp14 0 0 ! k \<and>
      pixel ?out 0 0 ! 7 \<noteq> pixel ramp14 0 0 ! k"
    unfolding px v using d by blast
  moreover have "shape2 ramp14 = 14" by (simp add: ramp14_def)
  ultimately show "\<exists>v v2. wf3 v \<and> shape2 v = 14 \<and> remap v = Inr v2 \<and>
            (\<forall>k < 14. pixel v2 0 0 ! 6 \<noteq> pixel v 0 0 ! k \<and> pixel v2 0 0 ! 7 \<noteq> pixel v 0 0 ! k)"
    using r wf3_ramp14 by blast
qed

theorem remap_copies_native_channels_witness:
  "wf3 ramp14 \<and> shape2 ramp14 = 14 \<and>
   (\<exists>um2. remap ramp14 = Inr um2 \<and> shape2 um2 = 16 \<and>
      pixel um2 0 0 ! 0 = Finite 0 \<and> pixel um2 0 0 ! 5 = Finite 5 \<and>
      pixel um2 0 0 ! 6 = Finite (5 / 2) \<and> pixel um2 0 0 ! 7 = Finite (15 / 2) \<and>
      pixel um2 0 0 ! 8 = Finite 6 \<and> pixel um2 0 0 ! 15 = Finite 13)"
proof -
  have s: "shape2 ramp14 = 14" by (simp add: ramp14_def)
  note t = remap_copies_native_channels [OF wf3_ramp14 s, THEN conjunct1]
  from t obtain um2 where u: "remap ramp14 = Inr um2 \<and> wf3 um2 \<and>
      shape0 um2 = shape0 ramp14 \<and> shape1 um2 = shape1 ramp14 \<and> shape2 um2 = 16 \<and>
      (\<forall>i < shape0 ramp14. \<forall>j < shape1 ramp14.
         (\<forall>k < 6. pixel um2 i j ! k = pixel ramp14 i j ! k) \<and>
         (\<forall>k. 8 \<le> k \<and> k < 16 \<longrightarrow> pixel um2 i j ! k = pixel ramp14 i j ! (k - 2)) \<and>
         pixel um2 i j ! 6 = f32_div (f32_add (pixel ramp14 i j ! 2) (pixel ramp14 i j ! 3)) 2 \<and>
         pixel um2 i j ! 7 =
           f32_div
             (f32_add
                (f32_add (f32_mul (float32 2) (pixel um2 i j ! 6)) (pixel ramp14 i j ! 12))
                (pixel ramp14 i j ! 13))
             4)" ..
  then have c: "(\<forall>k < 6. pixel um2 0 0 ! k = pixel ramp14 0 0 ! k) \<and>
        (\<forall>k. 8 \<le> k \<and> k < 16 \<longrightarrow> pixel um2 0 0 ! k = pixel ramp14 0 0 ! (k - 2)) \<and>
        pixel um2 0 0 ! 6 = f32_div (f32_add (pixel ramp14 0 0 ! 2) (pixel ramp14 0 0 ! 3)) 2 \<and>
        pixel um2 0 0 ! 7 =
           f32_div
             (f32_add
                (f32_add (f32_mul (float32 2) (pixel um2 0 0 ! 6)) (pixel ramp14 0 0 ! 12))
                (pixel ramp14 0 0 ! 13))
             4"
    by (simp add: ramp14_def)
  have p: "pixel ramp14 0 0 = map Finite [0, 1, 2, 3, 4, 5, 6, 7, 8, 9, 10, 11, 12, 13]"
    by (simp add: pixel_def ramp14_def)
  from c have "pixel um2 0 0 ! 0 = pixel ramp14 0 0 ! 0" "pixel um2 0 0 ! 5 = pixel ramp14 0 0 ! 5"
    "pixel um2 0 0 ! 8 = pixel ramp14 0 0 ! (8 - 2)" "pixel um2 0 0 ! 15 = pixel ramp14 0 0 ! (15 - 2)"
    by simp_all
  then have lo: "pixel um2 0 0 ! 0 = Finite 0" "pixel um2 0 0 ! 5 = Finite 5"
    "pixel um2 0 0 ! 8 = Finite 6" "pixel um2 0 0 ! 15 = Finite 13"
    by (simp_all add: p)
  from c have six: "pixel um2 0 0 ! 6 = Finite (5 / 2)"
    by (simp add: p float32_sum_5)
  from c have "pixel um2 0 0 ! 7 =
      f32_div (f32_add (f32_add (f32_mul (float32 2) (Finite (5 / 2))) (Finite 12)) (Finite 13)) 4"
    by (simp add: p six)
  then have seven: "pixel um2 0 0 ! 7 = Finite (15 / 2)"
    by (simp add: float32_2 float32_sum_5)
  from u have "remap ramp14 = Inr um2" "shape2 um2 = 16" by simp_all
  with lo six seven s wf3_ramp14 show ?thesis by blast
qed

text \<open>
  C2, as stated, fails: the two channels are float32 results, not exact ones. On the
  one-pixel stack with 16777215 and 2 in the channels 2 and 3, the sum 16777217 is no
  float32 value and is rounded to 16777216, so that channel 6 holds 8388608 and not the
  mean 8388608.5. On the one-pixel stack with \<open>2 ^ 127\<close> in the channels 2 and 3 the sum
  overflows: the channels 6 and 7 are not finite, while the mean is \<open>2 ^ 127\<close>.
\<close>

theorem remap_pelvis_is_rounded:
  "remap large14 = Inr \<lparr>shape0 = 1, shape1 = 1, shape2 = 16,
     elems = [[map Finite [0, 0, 16777215, 2, 0, 0, 8388608, 4194304, 0, 0, 0, 0, 0, 0, 0, 0]]]\<rparr> \<and>
   (16777215 + 2) / 2 \<noteq> (8388608 :: real) \<and>
   remap huge14 = Inr \<lparr>shape0 = 1, shape1 = 1, shape2 = 16,
     elems = [[[Finite 0, Finite 0, Finite (2 ^ 127), Finite (2 ^ 127), Finite 0, Finite 0,
                NonFinite, NonFinite, Finite 0, Finite 0, Finite 0, Finite 0, Finite 0,
                Finite 0, Finite 0, Finite 0]]]\<rparr>"
proof -
  have e: "float32 16777217 = Finite 16777216" "float32 8388608 = Finite 8388608"
    "float32 4194304 = Finite 4194304" "float32 16777216 = Finite 16777216"
    by (simp_all add: float32_def round_to_def exponent_def pow2_def round_even_def Let_def
        compute_bitlen)
  have h: "float32 (2 * 2 ^ 127) = NonFinite"
    by (simp add: float32_def round_to_def exponent_def pow2_def round_even_def Let_def
        compute_bitlen)
  have "wf3 large14" "14 \<le> shape2 large14"
    by (simp_all add: wf3_def large14_def)
  from remap_elems [OF this]
  have a: "remap large14 = Inr \<lparr>shape0 = 1, shape1 = 1, shape2 = 16,
     elems = [[map Finite [0, 0, 16777215, 2, 0, 0, 8388608, 4194304, 0, 0, 0, 0, 0, 0, 0, 0]]]\<rparr>"
    by (simp add: large14_def remap_pixel_def pelvis_of_def thorax_of_def float32_2 float32_0 e)
  have "wf3 huge14" "14 \<le> shape2 huge14"
    by (simp_all add: wf3_def huge14_def)
  from remap_elems [OF this]
  have b: "remap huge14 = Inr \<lparr>shape0 = 1, shape1 = 1, shape2 = 16,
     elems = [[[Finite 0, Finite 0, Finite (2 ^ 127), Finite (2 ^ 127), Finite 0, Finite 0,
                NonFinite, NonFinite, Finite 0, Finite 0, Finite 0, Finite 0, Finite 0,
                Finite 0, Finite 0, Finite 0]]]\<rparr>"
    unfolding huge14_def remap_pixel_def pelvis_of_def thorax_of_def
    by (simp add: h del: power_numeral)
  have c: "(16777215 + 2) / 2 \<noteq> (8388608 :: real)" by simp
  from a c b show ?thesis by (intro conjI)
qed

text \<open>
  C2, amended. For a stack of exactly 14 channels and a pixel whose native channels 2, 3,
  12 and 13 hold finite values \<open>a\<close>, \<open>b\<close>, \<open>c\<close> and \<open>d\<close> of magnitude \<open>2 ^ 100\<close> at most,
  the output channels 6 and 7 hold finite values \<open>p\<close> and \<open>t\<close>; \<open>p\<close> is the mean of
  \<open>a\<close> and \<open>b\<close> up to a relative error of \<open>3 / 2 ^ 24\<close> and an absolute one of
  \<open>1 / 2 ^ 149\<close>, and \<open>t\<close> is \<open>(2 * p + c + d) / 4\<close> up to \<open>5 / 2 ^ 24\<close> of
  \<open>(2 * \<bar>p\<bar> + \<bar>c\<bar> + \<bar>d\<bar>) / 4\<close> and \<open>1 / 2 ^ 149\<close>.
\<close>

theorem remap_pelvis_thorax_within_tolerance:
  assumes "wf3 um" and "shape2 um = 14" and "i < shape0 um" and "j < shape1 um"
    and "pixel um i j ! 2 = Finite a" and "pixel um i j ! 3 = Finite b"
    and "pixel um i j ! 12 = Finite c" and "pixel um i j ! 13 = Finite d"
    and "\<bar>a\<bar> \<le> 2 ^ 100" and "\<bar>b\<bar> \<le> 2 ^ 100" and "\<bar>c\<bar> \<le> 2 ^ 100" and "\<bar>d\<bar> \<le> 2 ^ 100"
  shows "\<exists>um2 p t. remap um = Inr um2 \<and>
           pixel um2 i j ! 6 = Finite p \<and> pixel um2 i j ! 7 = Finite t \<and>
           \<bar>p - (a + b) / 2\<bar> \<le> 3 * \<bar>(a + b) / 2\<bar> / 2 ^ 24 + 1 / 2 ^ 149 \<and>
           \<bar>t - (2 * p + c + d) / 4\<bar> \<le>
             5 * ((2 * \<bar>p\<bar> + \<bar>c\<bar> + \<bar>d\<bar>) / 4) / 2 ^ 24 + 1 / 2 ^ 149"
proof -
  from assms(2) have "14 \<le> shape2 um" by simp
  from remap_characterised [OF assms(1) this]
  obtain um2 where u: "remap um = Inr um2 \<and> wf3 um2 \<and>
      shape0 um2 = shape0 um \<and> shape1 um2 = shape1 um \<and> shape2 um2 = 16 \<and>
      (\<forall>i < shape0 um. \<forall>j < shape1 um.
         (\<forall>k < 6. pixel um2 i j ! k = pixel um i j ! k) \<and>
         (\<forall>k. 8 \<le> k \<and> k < 16 \<longrightarrow> pixel um2 i j ! k = pixel um i j ! (k - 2)) \<and>
         pixel um2 i j ! 6 = f32_div (f32_add (pixel um i j ! 2) (pixel um i j ! 3)) 2 \<and>
         pixel um2 i j ! 7 =
           f32_div
             (f32_add (f32_add (f32_mul (float32 2) (pixel um2 i j ! 6)) (pixel um i j ! 12))
                (pixel um i j ! 13))
             4)" ..
  with assms(3,4) have six: "pixel um2 i j ! 6 = f32_div (f32_add (Finite a) (Finite b)) 2"
    and seven: "pixel um2 i j ! 7 =
      f32_div (f32_add (f32_add (f32_mul (float32 2) (pixel um2 i j ! 6)) (Finite c)) (Finite d)) 4"
    by (simp_all add: assms(5-8))
  from pelvis_tolerance [OF assms(9,10)]
  obtain p where p: "f32_div (f32_add (Finite a) (Finite b)) 2 = Finite p"
    "\<bar>p - (a + b) / 2\<bar> \<le> 3 * \<bar>(a + b) / 2\<bar> / 2 ^ 24 + 1 / 2 ^ 149" "\<bar>p\<bar> \<le> 2 ^ 101"
    by blast
  from thorax_tolerance [OF p(3) assms(11,12)]
  obtain t where t: "f32_div (f32_add (f32_add (f32_mul (float32 2) (Finite p)) (Finite c)) (Finite d)) 4
      = Finite t"
    "\<bar>t - (2 * p + c + d) / 4\<bar> \<le> 5 * ((2 * \<bar>p\<bar> + \<bar>c\<bar> + \<bar>d\<bar>) / 4) / 2 ^ 24 + 1 / 2 ^ 149"
    by blast
  from u have r: "remap um = Inr um2" by simp
  have s6: "pixel um2 i j ! 6 = Finite p" by (simp only: six p(1))
  have s7: "pixel um2 i j ! 7 = Finite t" by (simp only: seven s6 t(1))
  from r s6 s7 p(2) t(2) show ?thesis by blast
qed

theorem remap_pelvis_thorax_within_tolerance_witness:
  "wf3 large14 \<and> shape2 large14 = 14 \<and> 0 < shape0 large14 \<and> 0 < shape1 large14 \<and>
   pixel large14 0 0 ! 2 = Finite 16777215 \<and> pixel large14 0 0 ! 3 = Finite 2 \<and>
   pixel large14 0 0 ! 12 = Finite 0 \<and> pixel large14 0 0 ! 13 = Finite 0 \<and>
   (\<exists>um2 p t. remap large14 = Inr um2 \<and>
      pixel um2 0 0 ! 6 = Finite p \<and> pixel um2 0 0 ! 7 = Finite t \<and>
      \<bar>p - (16777215 + 2) / 2\<bar> \<le> 3 * \<bar>(16777215 + 2) / 2\<bar> / 2 ^ 24 + 1 / 2 ^ 149 \<and>
      \<bar>t - (2 * p + 0 + 0) / 4\<bar> \<le> 5 * ((2 * \<bar>p\<bar> + \<bar>0\<bar> + \<bar>0\<bar>) / 4) / 2 ^ 24 + 1 / 2 ^ 149)"
proof -
  have w: "wf3 large14" by (simp add: wf3_def large14_def)
  have s: "shape2 large14 = 14" "0 < shape0 large14" "0 < shape1 large14"
    by (simp_all add: large14_def)
  have p: "pixel large14 0 0 ! 2 = Finite 16777215" "pixel large14 0 0 ! 3 = Finite 2"
    "pixel large14 0 0 ! 12 = Finite 0" "pixel large14 0 0 ! 13 = Finite 0"
    by (simp_all add: pixel_def large14_def)
  have b: "\<bar>16777215 :: real\<bar> \<le> 2 ^ 100" "\<bar>2 :: real\<bar> \<le> 2 ^ 100" "\<bar>0 :: real\<bar> \<le> 2 ^ 100"
    by simp_all
  note t = remap_pelvis_thorax_within_tolerance [OF w s p b(1) b(2) b(3) b(3)]
  from w s p t show ?thesis by (intro conjI)
qed

text \<open>
  C7, as stated, fails: a stack of 15 channels is not rejected. The one-pixel stack whose
  channel \<open>k\<close> holds \<open>k\<close> is remapped, its fifteenth channel ignored.
\<close>

theorem remap_accepts_15_channels:
  "shape2 ramp15 = 15 \<and>
   remap ramp15 = Inr \<lparr>shape0 = 1, shape1 = 1, shape2 = 16,
     elems = [[map Finite [0, 1, 2, 3, 4, 5, 5 / 2, 15 / 2, 6, 7, 8, 9, 10, 11, 12, 13]]]\<rparr>"
proof -
  have "wf3 ramp15" "14 \<le> shape2 ramp15"
    by (simp_all add: wf3_def ramp15_def)
  from remap_elems [OF this] remap_pixel_ramp [of "[Finite 14]"] show ?thesis
    by (simp add: ramp15_def)
qed

text \<open>
  C7, amended. A stack with fewer than 14 channels is rejected: the remapping raises
  \<open>IndexError\<close>. A stack with 14 channels or more is accepted and gives a stack of 16
  channels built from its first 14 channels: at every pixel the output channels 0 to 5
  are the native channels 0 to 5, the output channels 8 to 15 are the native channels 6
  to 13, channel 6 is the float32 quotient by 2 of the float32 sum of the native channels
  2 and 3, and channel 7 is the float32 quotient by 4 of the float32 sum of twice channel
  6 and the native channels 12 and 13.
\<close>

theorem remap_rejects_fewer_than_14:
  "(shape2 um < 14 \<longrightarrow> remap um = Inl IndexError) \<and>
   (wf3 um \<and> 14 \<le> shape2 um \<longrightarrow>
      (\<exists>um2. remap um = Inr um2 \<and> wf3 um2 \<and>
         shape0 um2 = shape0 um \<and> shape1 um2 = shape1 um \<and> shape2 um2 = 16 \<and>
         (\<forall>i < shape0 um. \<forall>j < shape1 um.
            (\<forall>k < 6. pixel um2 i j ! k = pixel um i j ! k) \<and>
            (\<forall>k. 8 \<le> k \<and> k < 16 \<longrightarrow> pixel um2 i j ! k = pixel um i j ! (k - 2)) \<and>
            pixel um2 i j ! 6 = f32_div (f32_add (pixel um i j ! 2) (pixel um i j ! 3)) 2 \<and>
            pixel um2 i j ! 7 =
              f32_div
                (f32_add
                   (f32_add (f32_mul (float32 2) (pixel um2 i j ! 6)) (pixel um i j ! 12))
                   (pixel um i j ! 13))
                4)))"
proof (intro conjI impI)
  assume "shape2 um < 14"
  then show "remap um = Inl IndexError"
    by (simp add: remap_def channel_def ebind_def Let_def)
next
  assume "wf3 um \<and> 14 \<le> shape2 um"
  then have "wf3 um" "14 \<le> shape2 um" by simp_all
  then show "\<exists>um2. remap um = Inr um2 \<and> wf3 um2 \<and>
         shape0 um2 = shape0 um \<and> shape1 um2 = shape1 um \<and> shape2 um2 = 16 \<and>
         (\<forall>i < shape0 um. \<forall>j < shape1 um.
            (\<forall>k < 6. pixel um2 i j ! k = pixel um i j ! k) \<and>
            (\<forall>k. 8 \<le> k \<and> k < 16 \<longrightarrow> pixel um2 i j ! k = pixel um i j ! (k - 2)) \<and>
            pixel um2 i j ! 6 = f32_div (f32_add (pixel um i j ! 2) (pixel um i j ! 3)) 2 \<and>
            pixel um2 i j ! 7 =
              f32_div
                (f32_add
                   (f32_add (f32_mul (float32 2) (pixel um2 i j ! 6)) (pixel um i j ! 12))
                   (pixel um i j ! 13))
                4)"
    by (rule remap_characterised)
qed

theorem remap_rejects_fewer_than_14_witness:
  "shape2 ramp13 < 14 \<and> remap ramp13 = Inl IndexError \<and>
   wf3 ramp15 \<and> 14 \<le> shape2 ramp15 \<and>
   (\<exists>um2. remap ramp15 = Inr um2 \<and> shape2 um2 = 16 \<and>
      pixel um2 0 0 ! 5 = Finite 5 \<and> pixel um2 0 0 ! 6 = Finite (5 / 2) \<and>
      pixel um2 0 0 ! 8 = Finite 6 \<and> pixel um2 0 0 ! 15 = Finite 13)"
proof -
  have a: "shape2 ramp13 < 14" by (simp add: ramp13_def)
  have b: "wf3 ramp15 \<and> 14 \<le> shape2 ramp15" by (simp add: wf3_def ramp15_def)
  note r13 = remap_rejects_fewer_than_14 [of ramp13, THEN conjunct1, THEN mp, OF a]
  note r15 = remap_rejects_fewer_than_14 [of ramp15, THEN conjunct2, THEN mp, OF b]
  from r15 obtain um2 where u: "remap ramp15 = Inr um2 \<and> wf3 um2 \<and>
      shape0 um2 = shape0 ramp15 \<and> shape1 um2 = shape1 ramp15 \<and> shape2 um2 = 16 \<and>
      (\<forall>i < shape0 ramp15. \<forall>j < shape1 ramp15.
         (\<forall>k < 6. pixel um2 i j ! k = pixel ramp15 i j ! k) \<and>
         (\<forall>k. 8 \<le> k \<and> k < 16 \<longrightarrow> pixel um2 i j ! k = pixel ramp15 i j ! (k - 2)) \<and>
         pixel um2 i j ! 6 = f32_div (f32_add (pixel ramp15 i j ! 2) (pixel ramp15 i j ! 3)) 2 \<and>
         pixel um2 i j ! 7 =
           f32_div
             (f32_add
                (f32_add (f32_mul (float32 2) (pixel um2 i j ! 6)) (pixel ramp15 i j ! 12))
                (pixel ramp15 i j ! 13))
             4)" ..
  then have c: "(\<forall>k < 6. pixel um2 0 0 ! k = pixel ramp15 0 0 ! k) \<and>
        (\<forall>k. 8 \<le> k \<and> k < 16 \<longrightarrow> pixel um2 0 0 ! k = pixel ramp15 0 0 ! (k - 2)) \<and>
        pixel um2 0 0 ! 6 = f32_div (f32_add (pixel ramp15 0 0 ! 2) (pixel ramp15 0 0 ! 3)) 2"
    by (simp add: ramp15_def)
  have p: "pixel ramp15 0 0 = map Finite [0, 1, 2, 3, 4, 5, 6, 7, 8, 9, 10, 11, 12, 13, 14]"
    by (simp add: pixel_def ramp15_def)
  from c have "pixel um2 0 0 ! 5 = pixel ramp15 0 0 ! 5"
    "pixel um2 0 0 ! 8 = pixel ramp15 0 0 ! (8 - 2)" "pixel um2 0 0 ! 15 = pixel ramp15 0 0 ! (15 - 2)"
    by simp_all
  then have lo: "pixel um2 0 0 ! 5 = Finite 5" "pixel um2 0 0 ! 8 = Finite 6"
    "pixel um2 0 0 ! 15 = Finite 13"
    by (simp_all add: p)
  from c have six: "pixel um2 0 0 ! 6 = Finite (5 / 2)"
    by (simp add: p float32_sum_5)
  from u have "remap ramp15 = Inr um2" "shape2 um2 = 16" by simp_all
  with lo six a b r13 show ?thesis by blast
qed

section \<open>The run: actions and paths\<close>

lemma keypoint_archives_append:
  "keypoint_archives (a @ b) = keypoint_archives a @ keypoint_archives b"
  by (induction a rule: keypoint_archives.induct) simp_all

lemma savez_names_append: "savez_names (a @ b) = savez_names a @ savez_names b"
  by (induction a rule: savez_names.induct) simp_all

lemma heatmap_bundles_append: "heatmap_bundles (a @ b) = heatmap_bundles a @ heatmap_bundles b"
  by (induction a rule: heatmap_bundles.induct) simp_all

lemma loop_body_savez:
  "savez_names (fst (loop_body w scales visualize process_folder out_name_provided image_name)) =
     [case out_name_provided of
        None \<Rightarrow> image_name @ ''_pose.npz''
      | Some given \<Rightarrow> if process_folder then join given (basename image_name @ ''_pose.npz'') else given]"
  by (simp add: loop_body_def Let_def savez_names_append del: draw_joints.simps split: prod.splits sum.splits)

lemma keypoint_archives_savez: "keypoint_archives acts = map npz_file (savez_names acts)"
  by (induction acts rule: savez_names.induct) simp_all

lemma loop_body_bundles:
  "heatmap_bundles (fst (loop_body w scales visualize process_folder out_name_provided image_name)) =
     [join (dirname image_name) (fst (splitext image_name) @ ''.h5'')]"
  by (simp add: loop_body_def Let_def heatmap_bundles_append del: draw_joints.simps split: prod.splits sum.splits)

lemma process_images_prefix:
  "\<exists>n. n \<le> length images \<and>
     fst (process_images body images) = concat (map (\<lambda>im. fst (body im)) (take n images)) \<and>
     (snd (process_images body images) = None \<longrightarrow> n = length images) \<and>
     (images \<noteq> [] \<longrightarrow> 0 < n)"
proof (induction images)
  case Nil
  show ?case by simp
next
  case (Cons im images)
  obtain acts r where b: "body im = (acts, r)" by (cases "body im")
  obtain acts' r' where p: "process_images body images = (acts', r')"
    by (cases "process_images body images")
  show ?case
  proof (cases r)
    case None
    from Cons.IH p obtain n where n: "n \<le> length images"
      "acts' = concat (map (\<lambda>im. fst (body im)) (take n images))"
      "r' = None \<longrightarrow> n = length images"
      by auto
    have "process_images body (im # images) = (acts @ acts', r')"
      using b p None by simp
    then show ?thesis
      using n b by (intro exI [of _ "Suc n"]) simp
  next
    case (Some e)
    have "process_images body (im # images) = (acts, Some e)"
      using b Some by simp
    then show ?thesis
      using b by (intro exI [of _ "Suc 0"]) simp
  qed
qed

lemma savez_names_concat:
  "savez_names (concat (map f xs)) = concat (map (\<lambda>x. savez_names (f x)) xs)"
  by (induction xs) (simp_all add: savez_names_append)

lemma endswith_append: "endswith (xs @ ys) ys"
  by (simp add: endswith_def)

lemma npz_file_pose: "npz_file (xs @ ''_pose.npz'') = xs @ ''_pose.npz''"
proof -
  have "endswith ((xs @ ''_pose'') @ ''.npz'') ''.npz''" by (rule endswith_append)
  then show ?thesis by (simp add: npz_file_def)
qed

lemma join_append: "\<exists>pre. join a (b @ s) = pre @ s"
proof -
  have "join a (b @ s) = b @ s \<or> join a (b @ s) = a @ b @ s \<or> join a (b @ s) = (a @ ''/'' @ b) @ s"
    by (simp add: join_def)
  then show ?thesis by (metis append.assoc)
qed

lemma npz_file_join: "npz_file (join a (b @ ''_pose.npz'')) = join a (b @ ''_pose.npz'')"
proof -
  obtain pre where "join a (b @ ''_pose.npz'') = pre @ ''_pose.npz''"
    using join_append by blast
  then show ?thesis by (simp only: npz_file_pose)
qed

lemma predict_pose_from_split:
  "predict_pose_from w image_name out_name scales visualize suffix =
     ((case out_name of
         None \<Rightarrow> []
       | Some given \<Rightarrow> if isdir w image_name \<and> \<not> path_exists w given then [Mkdir given] else []) @
      fst (process_images (loop_body w scales visualize (isdir w image_name) out_name)
             (input_images w image_name suffix)),
      snd (process_images (loop_body w scales visualize (isdir w image_name) out_name)
             (input_images w image_name suffix)))"
  by (simp add: predict_pose_from_def Let_def split: prod.splits)

lemma savez_names_made:
  "savez_names (case out_name of
         None \<Rightarrow> []
       | Some given \<Rightarrow> if c given then [Mkdir given] else []) = []"
  by (cases out_name) simp_all


lemma savez_names_bodies:
  "savez_names (concat (map (\<lambda>im. fst (loop_body w scales visualize pf out_name im)) ims)) =
     map (\<lambda>im. case out_name of
                 None \<Rightarrow> im @ ''_pose.npz''
               | Some given \<Rightarrow> if pf then join given (basename im @ ''_pose.npz'') else given) ims"
  by (induction ims) (simp_all add: savez_names_append loop_body_savez)

lemma run_savez:
  "\<exists>n. n \<le> length (input_images w image_name suffix) \<and>
     savez_names (fst (predict_pose_from w image_name out_name scales visualize suffix)) =
       map (\<lambda>im. case out_name of
                   None \<Rightarrow> im @ ''_pose.npz''
                 | Some given \<Rightarrow> if isdir w image_name then join given (basename im @ ''_pose.npz'') else given)
         (take n (input_images w image_name suffix)) \<and>
     (snd (predict_pose_from w image_name out_name scales visualize suffix) = None \<longrightarrow>
        n = length (input_images w image_name suffix)) \<and>
     (input_images w image_name suffix \<noteq> [] \<longrightarrow> 0 < n)"
proof -
  let ?body = "loop_body w scales visualize (isdir w image_name) out_name"
  let ?images = "input_images w image_name suffix"
  from process_images_prefix [of ?images ?body]
  obtain n where n: "n \<le> length ?images \<and>
    fst (process_images ?body ?images) = concat (map (\<lambda>im. fst (?body im)) (take n ?images)) \<and>
    (snd (process_images ?body ?images) = None \<longrightarrow> n = length ?images) \<and>
    (?images \<noteq> [] \<longrightarrow> 0 < n)" ..
  note n1 = n [THEN conjunct1]
  note n2 = n [THEN conjunct2, THEN conjunct1]
  note n3 = n [THEN conjunct2, THEN conjunct2, THEN conjunct1]
  note n4 = n [THEN conjunct2, THEN conjunct2, THEN conjunct2]
  have s: "savez_names (fst (predict_pose_from w image_name out_name scales visualize suffix)) =
     map (\<lambda>im. case out_name of
                   None \<Rightarrow> im @ ''_pose.npz''
                 | Some given \<Rightarrow> if isdir w image_name then join given (basename im @ ''_pose.npz'') else given)
         (take n ?images)"
    by (simp only: predict_pose_from_split fst_conv savez_names_append savez_names_made n2
        savez_names_bodies append.simps)
  have e: "snd (predict_pose_from w image_name out_name scales visualize suffix) =
      snd (process_images ?body ?images)"
    by (simp only: predict_pose_from_split snd_conv)
  show ?thesis
  proof (rule exI [of _ n], intro conjI)
    show "n \<le> length ?images" by (rule n1)
    show "savez_names (fst (predict_pose_from w image_name out_name scales visualize suffix)) =
       map (\<lambda>im. case out_name of
                   None \<Rightarrow> im @ ''_pose.npz''
                 | Some given \<Rightarrow> if isdir w image_name then join given (basename im @ ''_pose.npz'') else given)
         (take n ?images)" by (rule s)
    show "snd (predict_pose_from w image_name out_name scales visualize suffix) = None \<longrightarrow>
        n = length ?images" unfolding e by (rule n3)
    show "?images \<noteq> [] \<longrightarrow> 0 < n" by (rule n4)
  qed
qed


lemma single_file_run:
  "\<not> isdir w image_name \<Longrightarrow>
     predict_pose_from w image_name out_name scales visualize suffix =
       loop_body w scales visualize False out_name image_name"
  by (simp add: predict_pose_from_def input_images_def Let_def split: prod.splits option.splits)

lemma run_starts_with_mkdir:
  "isdir w image_name \<Longrightarrow> \<not> path_exists w given \<Longrightarrow>
     \<exists>acts. fst (predict_pose_from w image_name (Some given) scales visualize suffix) = Mkdir given # acts"
  by (simp add: predict_pose_from_split)

lemma process_images_completes:
  "\<forall>im \<in> set images. snd (body im) = None \<Longrightarrow> snd (process_images body images) = None"
  by (induction images) (auto split: prod.splits option.splits)

lemma loop_body_completes:
  assumes "remap (snd (estimate_pose w (prepare_image (imread w image_name)) scales)) = Inr um2"
  shows "snd (loop_body w scales False process_folder out_name image_name) = None"
  using assms by (auto simp: loop_body_def Let_def simp del: draw_joints.simps split: prod.splits)

lemma wf3_demo_maps: "wf3 demo_maps"
  by (simp add: wf3_def demo_maps_def)

lemma remap_demo_maps: "\<exists>um2. remap demo_maps = Inr um2"
  using remap_elems [OF wf3_demo_maps] by (simp add: demo_maps_def)

lemma demo_images: "input_images demo_world ''imgs'' ''.png'' = [''imgs/a.png'', ''imgs/b.png'']"
  by (simp add: input_images_def demo_world_def join_def)

lemma demo_folder_run_completes:
  "snd (predict_pose_from demo_world ''imgs'' out_name [1] False ''.png'') = None"
proof -
  obtain um2 where "remap demo_maps = Inr um2" using remap_demo_maps ..
  then have "snd (loop_body demo_world [1] False pf out_name im) = None" for pf im
    by (intro loop_body_completes [of _ _ _ um2]) (simp add: demo_world_def)
  then have "snd (process_images (loop_body demo_world [1] False (isdir demo_world ''imgs'') out_name)
      (input_images demo_world ''imgs'' ''.png'')) = None"
    by (intro process_images_completes) simp
  then show ?thesis
    by (simp only: predict_pose_from_split snd_conv)
qed

lemma slice_index_le: "slice_index n i \<le> n"
  by (auto simp: slice_index_def)

lemma npcircle_small_raises:
  assumes "shape0 visim < 16"
  shows "npcircle visim x y 8 color transparency = Inl IndexError"
proof -
  have "slice_index (shape0 visim) (py_int y + 8) - slice_index (shape0 visim) (py_int y - 8) < 16"
    using slice_index_le [of "shape0 visim" "py_int y + 8"] assms by arith
  then show ?thesis
    by (simp add: npcircle_def py_int_def Let_def)
qed

lemma draw_joints_raises:
  assumes "ps \<noteq> []" and "shape0 visim < 16"
  shows "draw_joints pose ps visim = Inl IndexError"
proof -
  obtain p rest where ps: "ps = p # rest" using assms(1) by (cases ps) auto
  show ?thesis
    unfolding ps draw_joints.simps
    by (simp add: index2_def npcircle_small_raises [OF assms(2)])
qed

lemma shape0_visualization_image: "shape0 (visualization_image img) = shape2 img"
  by (simp add: visualization_image_def swapaxes02_def flip_last_def)

lemma loop_body_visualize_raises:
  assumes "shape2 (prepare_image (imread w image_name)) < 16"
  shows "snd (loop_body w scales True process_folder out_name image_name) = Some IndexError \<or>
         (\<exists>e. remap (snd (estimate_pose w (prepare_image (imread w image_name)) scales)) = Inl e)"
  using assms
  by (auto simp: loop_body_def Let_def draw_joints_raises shape0_visualization_image
      simp del: draw_joints.simps split: prod.splits sum.splits)


lemma single_file_bundles:
  "\<not> isdir w image_name \<Longrightarrow>
     heatmap_bundles (fst (predict_pose_from w image_name out_name scales visualize suffix)) =
       [join (dirname image_name) (fst (splitext image_name) @ ''.h5'')]"
  by (simp add: single_file_run loop_body_bundles)

text \<open>
  C3. In a single-file run without an output path, the keypoint archive is written to the
  input path with \<open>_pose.npz\<close> appended. In a folder run with an output directory, the
  directory is created first when it does not exist, and the archives written are, in
  order, the output directory joined with the basename of each image plus \<open>_pose.npz\<close>:
  for all images when the run ends without an exception, and for the images up to the
  one that raised otherwise (at least the first).
\<close>

theorem keypoint_archive_paths:
  "(\<not> isdir w image_name \<longrightarrow>
      keypoint_archives (fst (predict_pose_from w image_name None scales visualize suffix)) =
        [image_name @ ''_pose.npz'']) \<and>
   (isdir w image_name \<longrightarrow>
      (\<not> path_exists w out_dir \<longrightarrow>
         (\<exists>acts. fst (predict_pose_from w image_name (Some out_dir) scales visualize suffix) =
            Mkdir out_dir # acts)) \<and>
      (\<exists>n. n \<le> length (input_images w image_name suffix) \<and>
         keypoint_archives (fst (predict_pose_from w image_name (Some out_dir) scales visualize suffix)) =
           map (\<lambda>im. join out_dir (basename im @ ''_pose.npz''))
             (take n (input_images w image_name suffix)) \<and>
         (snd (predict_pose_from w image_name (Some out_dir) scales visualize suffix) = None \<longrightarrow>
            n = length (input_images w image_name suffix)) \<and>
         (input_images w image_name suffix \<noteq> [] \<longrightarrow> 0 < n)))"
proof (intro conjI impI)
  assume "\<not> isdir w image_name"
  then show "keypoint_archives (fst (predict_pose_from w image_name None scales visualize suffix)) =
      [image_name @ ''_pose.npz'']"
    by (simp add: single_file_run keypoint_archives_savez loop_body_savez npz_file_pose)
next
  assume "isdir w image_name" and "\<not> path_exists w out_dir"
  then show "\<exists>acts. fst (predict_pose_from w image_name (Some out_dir) scales visualize suffix) =
      Mkdir out_dir # acts"
    by (rule run_starts_with_mkdir)
next
  assume d: "isdir w image_name"
  from run_savez [of w image_name suffix "Some out_dir" scales visualize]
  obtain n where n: "n \<le> length (input_images w image_name suffix) \<and>
     savez_names (fst (predict_pose_from w image_name (Some out_dir) scales visualize suffix)) =
       map (\<lambda>im. case Some out_dir of
                   None \<Rightarrow> im @ ''_pose.npz''
                 | Some given \<Rightarrow> if isdir w image_name then join given (basename im @ ''_pose.npz'') else given)
         (take n (input_images w image_name suffix)) \<and>
     (snd (predict_pose_from w image_name (Some out_dir) scales visualize suffix) = None \<longrightarrow>
        n = length (input_images w image_name suffix)) \<and>
     (input_images w image_name suffix \<noteq> [] \<longrightarrow> 0 < n)" ..
  have "keypoint_archives (fst (predict_pose_from w image_name (Some out_dir) scales visualize suffix)) =
           map (\<lambda>im. join out_dir (basename im @ ''_pose.npz''))
             (take n (input_images w image_name suffix))"
    using d by (simp add: keypoint_archives_savez n [THEN conjunct2, THEN conjunct1] npz_file_join)
  with n show "\<exists>n. n \<le> length (input_images w image_name suffix) \<and>
         keypoint_archives (fst (predict_pose_from w image_name (Some out_dir) scales visualize suffix)) =
           map (\<lambda>im. join out_dir (basename im @ ''_pose.npz''))
             (take n (input_images w image_name suffix)) \<and>
         (snd (predict_pose_from w image_name (Some out_dir) scales visualize suffix) = None \<longrightarrow>
            n = length (input_images w image_name suffix)) \<and>
         (input_images w image_name suffix \<noteq> [] \<longrightarrow> 0 < n)"
    by (intro exI [of _ n]) simp
qed

theorem keypoint_archive_paths_witness:
  "\<not> isdir demo_world ''img.png'' \<and>
   keypoint_archives (fst (predict_pose_from demo_world ''img.png'' None [1] True ''.png'')) =
     [''img.png_pose.npz''] \<and>
   isdir demo_world ''imgs'' \<and> \<not> path_exists demo_world ''out/'' \<and>
   (\<exists>acts. fst (predict_pose_from demo_world ''imgs'' (Some ''out/'') [1] False ''.png'') =
      Mkdir ''out/'' # acts) \<and>
   keypoint_archives (fst (predict_pose_from demo_world ''imgs'' (Some ''out/'') [1] False ''.png'')) =
     [''out/a.png_pose.npz'', ''out/b.png_pose.npz'']"
proof -
  have f: "\<not> isdir demo_world ''img.png''" and d: "isdir demo_world ''imgs''"
    and e: "\<not> path_exists demo_world ''out/''"
    by (simp_all add: demo_world_def)
  note a = keypoint_archive_paths [of demo_world "''img.png''" "[1]" True "''.png''" "''out/''",
      THEN conjunct1, THEN mp, OF f]
  note b = keypoint_archive_paths [of demo_world "''imgs''" "[1]" False "''.png''" "''out/''",
      THEN conjunct2, THEN mp, OF d]
  note m = b [THEN conjunct1, THEN mp, OF e]
  from b [THEN conjunct2] obtain n where n:
    "n \<le> length (input_images demo_world ''imgs'' ''.png'') \<and>
     keypoint_archives (fst (predict_pose_from demo_world ''imgs'' (Some ''out/'') [1] False ''.png'')) =
       map (\<lambda>im. join ''out/'' (basename im @ ''_pose.npz''))
         (take n (input_images demo_world ''imgs'' ''.png'')) \<and>
     (snd (predict_pose_from demo_world ''imgs'' (Some ''out/'') [1] False ''.png'') = None \<longrightarrow>
        n = length (input_images demo_world ''imgs'' ''.png'')) \<and>
     (input_images demo_world ''imgs'' ''.png'' \<noteq> [] \<longrightarrow> 0 < n)" ..
  from n [THEN conjunct2, THEN conjunct2, THEN conjunct1, THEN mp, OF demo_folder_run_completes]
  have "n = 2" by (simp add: demo_images)
  with n [THEN conjunct2, THEN conjunct1]
  have k: "keypoint_archives (fst (predict_pose_from demo_world ''imgs'' (Some ''out/'') [1] False ''.png'')) =
     [''out/a.png_pose.npz'', ''out/b.png_pose.npz'']"
    by (simp add: demo_images join_def basename_def rfind_def)
  from a have a': "keypoint_archives (fst (predict_pose_from demo_world ''img.png'' None [1] True ''.png'')) =
     [''img.png_pose.npz'']" by simp
  show ?thesis
    by (intro conjI f a' d e m k)
qed


text \<open>
  C4. For the relative input path \<open>data/a.png\<close> the heatmap bundle is opened at
  \<open>data/data/a.h5\<close>, with or without a supplied output path: \<open>splitext\<close> keeps the
  directory of the path, and \<open>join\<close> puts the directory in front once more. The
  directory joined with the stem plus \<open>.h5\<close> is \<open>data/a.h5\<close>.
\<close>

theorem heatmap_bundle_repeats_directory:
  "heatmap_bundles (fst (predict_pose_from demo_world ''data/a.png'' None [1] False ''.png'')) =
     [''data/data/a.h5''] \<and>
   heatmap_bundles (fst (predict_pose_from demo_world ''data/a.png'' (Some ''out.npz'') [1] False ''.png'')) =
     [''data/data/a.h5''] \<and>
   join (dirname ''data/a.png'') (stem ''data/a.png'' @ ''.h5'') = ''data/a.h5''"
proof -
  have f: "\<not> isdir demo_world ''data/a.png''" by (simp add: demo_world_def)
  have "join (dirname ''data/a.png'') (fst (splitext ''data/a.png'') @ ''.h5'') = ''data/data/a.h5''"
    by (simp add: join_def dirname_def splitext_def rfind_def Let_def)
  moreover have "join (dirname ''data/a.png'') (stem ''data/a.png'' @ ''.h5'') = ''data/a.h5''"
    by (simp add: join_def dirname_def splitext_def stem_def basename_def rfind_def Let_def)
  ultimately show ?thesis
    by (simp only: single_file_bundles [OF f])
qed

text \<open>
  C8. The decoded image \<open>demo_image\<close>, RGB with two rows and one column, becomes the
  BGR processing image; the image handed to the disc overlay is that image with its axes
  0 and 2 swapped and its last axis, the rows, reversed: three rows, one column, two
  channels. The processing image with its channels reversed would be \<open>demo_image\<close>
  again. On the swapped image the first disc raises \<open>IndexError\<close>.
\<close>

theorem overlay_gets_swapped_image:
  "prepare_image (Colour demo_image) =
     \<lparr>shape0 = 2, shape1 = 1, shape2 = 3, elems = [[[3, 2, 1]], [[6, 5, 4]]]\<rparr> \<and>
   visualization_image (prepare_image (Colour demo_image)) =
     \<lparr>shape0 = 3, shape1 = 1, shape2 = 2, elems = [[[6, 3]], [[5, 2]], [[4, 1]]]\<rparr> \<and>
   flip_last (prepare_image (Colour demo_image)) =
     \<lparr>shape0 = 2, shape1 = 1, shape2 = 3, elems = [[[1, 2, 3]], [[4, 5, 6]]]\<rparr> \<and>
   draw_joints demo_pose [0..<14] (visualization_image (prepare_image (Colour demo_image))) =
     Inl IndexError"
proof -
  have p: "prepare_image (Colour demo_image) =
     \<lparr>shape0 = 2, shape1 = 1, shape2 = 3, elems = [[[3, 2, 1]], [[6, 5, 4]]]\<rparr>"
    by (simp add: prepare_image_def flip_last_def demo_image_def)
  have v: "visualization_image \<lparr>shape0 = 2, shape1 = 1, shape2 = 3, elems = [[[3, 2, 1]], [[6, 5, 4::8 word]]]\<rparr> =
     \<lparr>shape0 = 3, shape1 = 1, shape2 = 2, elems = [[[6, 3]], [[5, 2]], [[4, 1]]]\<rparr>"
    by (simp add: visualization_image_def swapaxes02_def flip_last_def Let_def upt_rec numeral_eq_Suc)
  have f: "flip_last \<lparr>shape0 = 2, shape1 = 1, shape2 = 3, elems = [[[3, 2, 1]], [[6, 5, 4::8 word]]]\<rparr> =
     \<lparr>shape0 = 2, shape1 = 1, shape2 = 3, elems = [[[1, 2, 3]], [[4, 5, 6]]]\<rparr>"
    by (simp add: flip_last_def)
  have d: "draw_joints demo_pose [0..<14]
      \<lparr>shape0 = 3, shape1 = 1, shape2 = 2, elems = [[[6, 3]], [[5, 2]], [[4, 1::8 word]]]\<rparr> = Inl IndexError"
    by (rule draw_joints_raises) simp_all
  show ?thesis
    by (simp only: p v f d)
qed

text \<open>
  C9, as stated, fails: in a single-file run with the supplied output path \<open>result\<close>
  the keypoint archive is written to \<open>result.npz\<close>.
\<close>

theorem supplied_path_gets_npz_appended:
  "keypoint_archives (fst (predict_pose_from demo_world ''img.png'' (Some ''result'') [1] False ''.png'')) =
     [''result.npz'']"
proof -
  have f: "\<not> isdir demo_world ''img.png''" by (simp add: demo_world_def)
  show ?thesis
    by (simp add: single_file_run [OF f] keypoint_archives_savez loop_body_savez npz_file_def endswith_def)
qed

text \<open>
  C9, amended. In a single-file run with a supplied output path, \<open>savez_compressed\<close> is
  called once, with exactly the supplied path (no \<open>_pose.npz\<close> is appended); the archive
  is written to that path when it ends with \<open>.npz\<close>, and to that path plus \<open>.npz\<close>
  otherwise.
\<close>

theorem supplied_archive_path:
  assumes "\<not> isdir w image_name"
  shows "savez_names (fst (predict_pose_from w image_name (Some given) scales visualize suffix)) = [given] \<and>
         keypoint_archives (fst (predict_pose_from w image_name (Some given) scales visualize suffix)) =
           [if endswith given ''.npz'' then given else given @ ''.npz'']"
  using assms by (simp add: single_file_run keypoint_archives_savez loop_body_savez npz_file_def)


theorem supplied_archive_path_witness:
  "\<not> isdir demo_world ''img.png'' \<and>
   savez_names (fst (predict_pose_from demo_world ''img.png'' (Some ''pose.npz'') [1] False ''.png'')) =
     [''pose.npz''] \<and>
   keypoint_archives (fst (predict_pose_from demo_world ''img.png'' (Some ''pose.npz'') [1] False ''.png'')) =
     [''pose.npz'']"
proof -
  have f: "\<not> isdir demo_world ''img.png''" by (simp add: demo_world_def)
  have e: "endswith ''pose.npz'' ''.npz''" by (simp add: endswith_def)
  from supplied_archive_path [OF f, of "''pose.npz''" "[1]" False "''.png''"] e f
  show ?thesis by simp
qed


end
